theory Spec2Isabelle
  imports Complex_Main "HOL-Library.AList" "HOL-Library.Sublist"
begin

section \<open>The indexing lifecycle of packages/mcp/src/handlers.ts\<close>

text \<open>
  The class \<open>ToolHandlers\<close> keeps, per codebase path, a record of the indexing state in a
  \<open>SnapshotManager\<close>, talks to a vector database and a \<open>Context\<close> (the external
  collaborators), and runs indexing as a detached task. The handlers are embedded here
  as state transformers over a \<open>world\<close>: the in-memory snapshot, the persisted snapshot,
  the field \<open>indexingStats\<close> and the history of every call that leaves the handler
  (to a collaborator, to the snapshot manager, to the console). A JavaScript exception
  is the value \<open>Throw\<close>; \<open>try\<close>/\<open>catch\<close> is \<open>try_catch\<close>.
\<close>

subsection \<open>Values and exceptions\<close>

type_synonym path = string

text \<open>What \<open>JSON.parse\<close> returns.\<close>

datatype jsval =
    JNull
  | JBool bool
  | JNum real
  | JStr string
  | JArr "jsval list"
  | JObj "(string \<times> jsval) list"

text \<open>
  A thrown value: an \<open>Error\<close> object with its \<open>name\<close> and \<open>message\<close>, or a string
  thrown directly (the handlers' own comments provide for both).
\<close>

datatype exn =
    ErrorObj string string
  | ThrownString string

text \<open>\<open>error.message\<close>: a string thrown directly has no such property.\<close>

fun exn_message :: "exn \<Rightarrow> string option" where
  "exn_message (ErrorObj n m) = Some m"
| "exn_message (ThrownString s) = None"

text \<open>\<open>String(error)\<close>, for an \<open>Error\<close> the result of \<open>Error.prototype.toString\<close>.\<close>

fun exn_String :: "exn \<Rightarrow> string" where
  "exn_String (ErrorObj n m) =
     (if m = [] then n else if n = [] then m else n @ '': '' @ m)"
| "exn_String (ThrownString s) = s"

text \<open>
  \<open>error.message || String(error)\<close>, also the text of \<open>${error.message || error}\<close>:
  an empty or missing message is falsy, so the string form stands in for it.
\<close>

definition message_or_String :: "exn \<Rightarrow> string" where
  "message_or_String e =
     (case exn_message e of
        Some m \<Rightarrow> (if m \<noteq> [] then m else exn_String e)
      | None \<Rightarrow> exn_String e)"

text \<open>The \<open>TypeError\<close> of destructuring \<open>undefined\<close> or \<open>null\<close>.\<close>

definition destructure_TypeError :: exn where
  "destructure_TypeError =
     ErrorObj ''TypeError'' ''Cannot destructure property 'path' of 'args' as it is undefined.''"

subsection \<open>The snapshot manager\<close>

text \<open>
  Modelled from the spec: the class \<open>SnapshotManager\<close> (module \<open>./snapshot.js\<close>) is
  not among the sources; only its calls in handlers.ts are. Its state is the Snapshot of
  the data model: one record per path with a status \<open>indexing\<close> (carrying
  \<open>indexingPercentage\<close>), \<open>indexed\<close> (carrying \<open>indexedFiles\<close>, \<open>totalChunks\<close>) or
  \<open>indexfailed\<close> (carrying \<open>errorMessage\<close>, \<open>lastAttemptedPercentage\<close>); a path
  with no record is \<open>not_found\<close>. The field \<open>lastUpdated\<close> is left out: no clock is
  modelled for the manager. Removal deletes the record; saving copies the in-memory
  snapshot to the persisted one. No method of the manager throws.
\<close>

datatype index_record =
    RecIndexing real
  | RecIndexed nat nat
  | RecIndexFailed string "real option"

datatype codebase_status = not_found | indexing | indexed | indexfailed

type_synonym snapshot = "(path \<times> index_record) list"

fun record_status :: "index_record \<Rightarrow> codebase_status" where
  "record_status (RecIndexing pct) = indexing"
| "record_status (RecIndexed files chunks) = indexed"
| "record_status (RecIndexFailed msg pct) = indexfailed"


definition getCodebaseStatus :: "snapshot \<Rightarrow> path \<Rightarrow> codebase_status" where
  "getCodebaseStatus s p =
     (case map_of s p of None \<Rightarrow> not_found | Some r \<Rightarrow> record_status r)"

definition getIndexedCodebases :: "snapshot \<Rightarrow> path list" where
  "getIndexedCodebases s = map fst (filter (\<lambda>(p, r). record_status r = indexed) s)"

definition getIndexingCodebases :: "snapshot \<Rightarrow> path list" where
  "getIndexingCodebases s = map fst (filter (\<lambda>(p, r). record_status r = indexing) s)"


subsection \<open>The world and its history\<close>

text \<open>The result of \<open>Context.indexCodebase\<close>.\<close>

datatype index_status = completed | limit_reached

record stats =
  indexedFiles :: nat
  totalChunks :: nat
  status :: index_status

text \<open>
  What the handlers write to the console, where a property reads it: the fallback
  warning of line 342, the completion message of line 399 (the flag says whether the
  chunk-limit warning of line 396 was appended) and the failure of line 413.
\<close>

datatype console_line =
    NonAstFallback string
  | IndexingCompleted path string nat nat bool
  | IndexingFailed path string

datatype event =
    ListCollections
  | Query string
  | HasIndex path
  | ClearIndex path
  | CheckCollectionLimit
  | AddCustomExtensions "string list"
  | AddCustomIgnorePatterns "string list"
  | TrackCodebasePath path
  | PrepareIndexing path
  | IndexCodebase path
  | RemoveIndexedCodebase path
  | SetCodebaseIndexing path real
  | SetCodebaseIndexed path nat nat
  | SetCodebaseIndexFailed path string "real option"
  | SaveCodebaseSnapshot
  | StartBackgroundIndexing path bool string
  | Console console_line

record world =
  snapshot :: snapshot
  persisted :: snapshot
  indexingStats :: "(nat \<times> nat) option"
  trace :: "event list"

datatype 'a outcome = Ret 'a | Throw exn

type_synonym 'a comp = "world \<Rightarrow> 'a outcome \<times> world"

definition ret :: "'a \<Rightarrow> 'a comp" where
  "ret x w = (Ret x, w)"

definition seq :: "'a comp \<Rightarrow> ('a \<Rightarrow> 'b comp) \<Rightarrow> 'b comp" where
  "seq m f w = (case m w of (Ret x, w') \<Rightarrow> f x w' | (Throw e, w') \<Rightarrow> (Throw e, w'))"

definition try_catch :: "'a comp \<Rightarrow> (exn \<Rightarrow> 'a comp) \<Rightarrow> 'a comp" where
  "try_catch m h w = (case m w of (Ret x, w') \<Rightarrow> (Ret x, w') | (Throw e, w') \<Rightarrow> h e w')"

text \<open>
  A call to a collaborator: the call enters the history, and the collaborator answers
  (or throws) as a function of the history before the call, so that two calls of one
  handler may be answered differently.
\<close>

type_synonym 'a ext = "event list \<Rightarrow> exn + 'a"

definition call :: "event \<Rightarrow> 'a ext \<Rightarrow> 'a comp" where
  "call e f w =
     (case f (trace w) of
        Inl x \<Rightarrow> (Throw x, w\<lparr>trace := trace w @ [e]\<rparr>)
      | Inr v \<Rightarrow> (Ret v, w\<lparr>trace := trace w @ [e]\<rparr>))"

definition emit :: "event \<Rightarrow> unit comp" where
  "emit e w = (Ret (), w\<lparr>trace := trace w @ [e]\<rparr>)"

text \<open>
  Modelled from the spec: the mutating methods of the \<open>SnapshotManager\<close>
  (\<open>./snapshot.js\<close>, not among the sources), named as handlers.ts calls them. A setter
  replaces the record of the path, \<open>removeIndexedCodebase\<close> removes it, and
  \<open>saveCodebaseSnapshot\<close> persists the snapshot. Each call is entered into the history.
\<close>

definition removeIndexedCodebase :: "path \<Rightarrow> unit comp" where
  "removeIndexedCodebase p w =
     (Ret (), w\<lparr>snapshot := AList.delete p (snapshot w),
                 trace := trace w @ [RemoveIndexedCodebase p]\<rparr>)"

definition setCodebaseIndexing :: "path \<Rightarrow> real \<Rightarrow> unit comp" where
  "setCodebaseIndexing p pct w =
     (Ret (), w\<lparr>snapshot := AList.update p (RecIndexing pct) (snapshot w),
                 trace := trace w @ [SetCodebaseIndexing p pct]\<rparr>)"

definition setCodebaseIndexed :: "path \<Rightarrow> stats \<Rightarrow> unit comp" where
  "setCodebaseIndexed p st w =
     (Ret (), w\<lparr>snapshot :=
                   AList.update p (RecIndexed (indexedFiles st) (totalChunks st)) (snapshot w),
                 trace := trace w @ [SetCodebaseIndexed p (indexedFiles st) (totalChunks st)]\<rparr>)"

definition setCodebaseIndexFailed :: "path \<Rightarrow> string \<Rightarrow> real option \<Rightarrow> unit comp" where
  "setCodebaseIndexFailed p msg pct w =
     (Ret (), w\<lparr>snapshot := AList.update p (RecIndexFailed msg pct) (snapshot w),
                 trace := trace w @ [SetCodebaseIndexFailed p msg pct]\<rparr>)"

definition saveCodebaseSnapshot :: "unit comp" where
  "saveCodebaseSnapshot w =
     (Ret (), w\<lparr>persisted := snapshot w, trace := trace w @ [SaveCodebaseSnapshot]\<rparr>)"

text \<open>The events a computation added to the history of \<open>w\<close>, read off its final world.\<close>

definition events_since :: "world \<Rightarrow> world \<Rightarrow> event list" where
  "events_since w w' = drop (length (trace w)) (trace w')"

text \<open>The events that come before the first occurrence of \<open>e\<close>.\<close>

definition events_before :: "event \<Rightarrow> event list \<Rightarrow> event list" where
  "events_before e es = takeWhile (\<lambda>x. x \<noteq> e) es"

subsection \<open>The collaborators\<close>

text \<open>
  The vector database, the \<open>Context\<close>, the file system and the helpers
  \<open>ensureAbsolutePath\<close> and \<open>trackCodebasePath\<close> of \<open>./utils.js\<close> are
  parameters. A query answers with the \<open>metadata\<close> field of each row (\<open>None\<close>
  when the row has none), and \<open>jsonParse\<close> is \<open>JSON.parse\<close>. \<open>prepareIndexing\<close>
  stands for lines 346 to 367 of the detached task (loading ignore patterns, creating
  and initialising the file synchronizer, preparing the collection, reading the
  embedding provider): calls that touch no snapshot and whose only effect on the task is
  that any of them may throw. \<open>indexCodebase\<close> answers with the progress callbacks it
  made, each with its percentage and the value of \<open>Date.now()\<close> inside the callback, and
  then either throws or resolves with the statistics.
\<close>

record env =
  listCollections :: "string list ext"
  query :: "string \<Rightarrow> string option list ext"
  jsonParse :: "string \<Rightarrow> exn + jsval"
  hasIndex :: "path \<Rightarrow> bool ext"
  clearIndex :: "path \<Rightarrow> unit ext"
  checkCollectionLimit :: "bool ext"
  ensureAbsolutePath :: "string option \<Rightarrow> exn + path"
  existsSync :: "path \<Rightarrow> bool"
  statSync_isDirectory :: "path \<Rightarrow> exn + bool"
  addCustomExtensions :: "string list \<Rightarrow> unit ext"
  addCustomIgnorePatterns :: "string list \<Rightarrow> unit ext"
  trackCodebasePath :: "path \<Rightarrow> unit ext"
  prepareIndexing :: "path \<Rightarrow> unit ext"
  indexCodebase :: "path \<Rightarrow> event list \<Rightarrow> (real \<times> int) list \<times> (exn + stats)"

text \<open>A pure helper that may throw, run as a computation.\<close>

definition lift :: "exn + 'a \<Rightarrow> 'a comp" where
  "lift r w = (case r of Inl x \<Rightarrow> (Throw x, w) | Inr v \<Rightarrow> (Ret v, w))"

definition gets :: "(world \<Rightarrow> 'a) \<Rightarrow> 'a comp" where
  "gets f w = (Ret (f w), w)"

subsection \<open>syncIndexedCodebasesFromCloud (lines 34 to 145)\<close>

text \<open>
  Lines 89 to 92: \<open>metadata.codebasePath\<close> of the parsed metadata, kept when it passes
  \<open>codebasePath && typeof codebasePath === 'string'\<close>. Reading a property of \<open>null\<close>
  throws.
\<close>

fun codebasePath_of :: "jsval \<Rightarrow> exn + string option" where
  "codebasePath_of JNull =
     Inl (ErrorObj ''TypeError'' ''Cannot read properties of null (reading 'codebasePath')'')"
| "codebasePath_of (JObj fs) =
     Inr (case map_of fs ''codebasePath'' of
            Some (JStr s) \<Rightarrow> (if s \<noteq> [] then Some s else None)
          | _ \<Rightarrow> None)"
| "codebasePath_of v = Inr None"

text \<open>
  The body of the loop over the collections (lines 66 to 110), for one collection:
  \<open>cloud\<close> is the set \<open>cloudCodebases\<close> collected so far.
\<close>

definition checkCollection :: "env \<Rightarrow> string \<Rightarrow> string list \<Rightarrow> string list comp" where
  "checkCollection en collectionName cloud =
     try_catch
       (if \<not> prefix ''code_chunks_'' collectionName
           \<and> \<not> prefix ''hybrid_code_chunks_'' collectionName
        then ret cloud
        else
          seq (call (Query collectionName) (query en collectionName)) (\<lambda>results.
            case results of
              [] \<Rightarrow> ret cloud
            | firstResult # rest \<Rightarrow>
                (case firstResult of
                   None \<Rightarrow> ret cloud
                 | Some metadataStr \<Rightarrow>
                     if metadataStr = [] then ret cloud
                     else
                       try_catch
                         (seq (lift (jsonParse en metadataStr)) (\<lambda>metadata.
                          seq (lift (codebasePath_of metadata)) (\<lambda>codebasePath.
                            case codebasePath of
                              Some c \<Rightarrow> ret (List.insert c cloud)
                            | None \<Rightarrow> ret cloud)))
                         (\<lambda>parseError. ret cloud))))
       (\<lambda>collectionError. ret cloud)"

fun checkCollections :: "env \<Rightarrow> string list \<Rightarrow> string list \<Rightarrow> string list comp" where
  "checkCollections en [] cloud = ret cloud"
| "checkCollections en (c # cs) cloud =
     seq (checkCollection en c cloud) (\<lambda>cloud'. checkCollections en cs cloud')"

text \<open>Lines 52 to 55: every local codebase is removed.\<close>

fun removeEach :: "path list \<Rightarrow> unit comp" where
  "removeEach [] = ret ()"
| "removeEach (p # ps) = seq (removeIndexedCodebase p) (\<lambda>u. removeEach ps)"

text \<open>Lines 122 to 128: \<open>h\<close> is \<open>hasChanges\<close>.\<close>

fun removeNotInCloud :: "string list \<Rightarrow> path list \<Rightarrow> bool \<Rightarrow> bool comp" where
  "removeNotInCloud cloud [] h = ret h"
| "removeNotInCloud cloud (p # ps) h =
     (if p \<notin> set cloud
      then seq (removeIndexedCodebase p) (\<lambda>u. removeNotInCloud cloud ps True)
      else removeNotInCloud cloud ps h)"

text \<open>\<open>new Set(xs)\<close>, iterated: the elements in the order of their first occurrence.\<close>

definition js_Set :: "'a list \<Rightarrow> 'a list" where
  "js_Set xs = rev (remdups (rev xs))"

definition syncIndexedCodebasesFromCloud :: "env \<Rightarrow> unit comp" where
  "syncIndexedCodebasesFromCloud en =
     try_catch
       (seq (call ListCollections (listCollections en)) (\<lambda>collections.
          if collections = [] then
            seq (gets (\<lambda>w. getIndexedCodebases (snapshot w))) (\<lambda>localCodebases.
              if localCodebases \<noteq> [] then
                seq (removeEach localCodebases) (\<lambda>u. saveCodebaseSnapshot)
              else ret ())
          else
            seq (checkCollections en collections []) (\<lambda>cloudCodebases.
            seq (gets (\<lambda>w. js_Set (getIndexedCodebases (snapshot w)))) (\<lambda>localCodebases.
            seq (removeNotInCloud cloudCodebases localCodebases False) (\<lambda>hasChanges.
              if hasChanges then saveCodebaseSnapshot else ret ())))))
       (\<lambda>error. ret ())"

subsection \<open>handleIndexCodebase (lines 147 to 325)\<close>

text \<open>
  The argument object. \<open>args\<close> is typed \<open>any\<close>: it is either absent (\<open>undefined\<close> or
  \<open>null\<close>, here \<open>None\<close>) or an object whose properties, where present, have the types
  of the tool's schema.
\<close>

record index_args =
  arg_path :: "string option"
  arg_force :: "bool option"
  arg_splitter :: "string option"
  arg_customExtensions :: "string list option"
  arg_ignorePatterns :: "string list option"

text \<open>
  The texts of the responses, one constructor for each template of the source:
  \<^item> \<open>InvalidSplitterType s\<close>: "Error: Invalid splitter type 's'. Must be 'ast' or 'langchain'."
  \<^item> \<open>PathDoesNotExist p input\<close>: "Error: Path 'p' does not exist. Original input: 'input'"
  \<^item> \<open>PathNotADirectory p\<close>: "Error: Path 'p' is not a directory"
  \<^item> \<open>AlreadyBeingIndexed p\<close>: "Codebase 'p' is already being indexed in the background.
    Please wait for completion."
  \<^item> \<open>AlreadyIndexed p\<close>: "Codebase 'p' is already indexed. Use force=true to re-index."
  \<^item> \<open>CollectionLimitMessage\<close>: the constant \<open>COLLECTION_LIMIT_MESSAGE\<close> of the core package
  \<^item> \<open>ErrorValidatingCollection m\<close>: "Error validating collection creation: m"
  \<^item> \<open>StartedBackgroundIndexing p s input exts pats\<close>: "Started background indexing for
    codebase 'p' using S splitter." with the notes on the resolved input path, the custom
    extensions and the custom ignore patterns, and "Indexing is running in the background. ..."
  \<^item> \<open>ErrorStartingIndexing m\<close>: "Error starting indexing: m"
\<close>

datatype message =
    InvalidSplitterType string
  | PathDoesNotExist path "string option"
  | PathNotADirectory path
  | AlreadyBeingIndexed path
  | AlreadyIndexed path
  | CollectionLimitMessage
  | ErrorValidatingCollection string
  | StartedBackgroundIndexing path string "string option option" "string list" "string list"
  | ErrorStartingIndexing string

record response =
  content :: message
  isError :: bool

text \<open>Lines 149 to 152: \<open>force || false\<close>, \<open>splitter || 'ast'\<close>, \<open>customExtensions || []\<close>.\<close>

definition forceReindex_of :: "index_args \<Rightarrow> bool" where
  "forceReindex_of a = (case arg_force a of Some b \<Rightarrow> b | None \<Rightarrow> False)"

definition splitterType_of :: "index_args \<Rightarrow> string" where
  "splitterType_of a =
     (case arg_splitter a of Some s \<Rightarrow> (if s \<noteq> [] then s else ''ast'') | None \<Rightarrow> ''ast'')"

definition or_empty :: "'a list option \<Rightarrow> 'a list" where
  "or_empty xs = (case xs of Some ys \<Rightarrow> ys | None \<Rightarrow> [])"

text \<open>Lines 221 to 231: the removal and the clearing of a forced re-index.\<close>

definition forceClear :: "env \<Rightarrow> bool \<Rightarrow> path \<Rightarrow> unit comp" where
  "forceClear en forceReindex absolutePath =
     (if forceReindex then
        seq (gets (\<lambda>w. absolutePath \<in> set (getIndexedCodebases (snapshot w)))) (\<lambda>isIndexed.
        seq (if isIndexed then removeIndexedCodebase absolutePath else ret ()) (\<lambda>u.
        seq (call (HasIndex absolutePath) (hasIndex en absolutePath)) (\<lambda>has.
          if has then call (ClearIndex absolutePath) (clearIndex en absolutePath) else ret ())))
      else ret ())"

text \<open>
  Lines 233 to 262: the validation before indexing. Both the failed check and the
  caught exception return from the handler: \<open>Some\<close> is that early response.
\<close>

definition preflight :: "env \<Rightarrow> response option comp" where
  "preflight en =
     try_catch
       (seq (call CheckCollectionLimit (checkCollectionLimit en)) (\<lambda>canCreateCollection.
          if \<not> canCreateCollection
          then ret (Some \<lparr>content = CollectionLimitMessage, isError = True\<rparr>)
          else ret None))
       (\<lambda>validationError.
          ret (Some \<lparr>content = ErrorValidatingCollection (message_or_String validationError),
                     isError = True\<rparr>))"

text \<open>Lines 264 to 274.\<close>

definition registerCustom :: "env \<Rightarrow> string list \<Rightarrow> string list \<Rightarrow> unit comp" where
  "registerCustom en customFileExtensions customIgnorePatterns =
     seq (if customFileExtensions \<noteq> []
          then call (AddCustomExtensions customFileExtensions)
                 (addCustomExtensions en customFileExtensions)
          else ret ()) (\<lambda>u.
       if customIgnorePatterns \<noteq> []
       then call (AddCustomIgnorePatterns customIgnorePatterns)
              (addCustomIgnorePatterns en customIgnorePatterns)
       else ret ())"

text \<open>
  Lines 283 to 310. The detached task is not awaited: the handler only launches it
  (the event \<open>StartBackgroundIndexing\<close>); its body is \<open>startBackgroundIndexing\<close> below.
\<close>

definition commitIndexing ::
  "env \<Rightarrow> string option \<Rightarrow> path \<Rightarrow> bool \<Rightarrow> string \<Rightarrow> string list \<Rightarrow> string list
     \<Rightarrow> response comp" where
  "commitIndexing en codebasePath absolutePath forceReindex splitterType
       customFileExtensions customIgnorePatterns =
     seq (setCodebaseIndexing absolutePath 0) (\<lambda>u.
     seq saveCodebaseSnapshot (\<lambda>u.
     seq (call (TrackCodebasePath absolutePath) (trackCodebasePath en absolutePath)) (\<lambda>u.
     seq (emit (StartBackgroundIndexing absolutePath forceReindex splitterType)) (\<lambda>u.
       ret \<lparr>content =
              StartedBackgroundIndexing absolutePath splitterType
                (if codebasePath \<noteq> Some absolutePath then Some codebasePath else None)
                customFileExtensions customIgnorePatterns,
            isError = False\<rparr>))))"

text \<open>
  Lines 233 to 310: the validation, the registration of the custom extensions and
  patterns, and the start.
\<close>

definition validateAndStart ::
  "env \<Rightarrow> string option \<Rightarrow> path \<Rightarrow> bool \<Rightarrow> string \<Rightarrow> string list \<Rightarrow> string list
     \<Rightarrow> response comp" where
  "validateAndStart en codebasePath absolutePath forceReindex splitterType
       customFileExtensions customIgnorePatterns =
     seq (preflight en) (\<lambda>early.
       case early of
         Some r \<Rightarrow> ret r
       | None \<Rightarrow>
           seq (registerCustom en customFileExtensions customIgnorePatterns) (\<lambda>u.
             commitIndexing en codebasePath absolutePath forceReindex splitterType
               customFileExtensions customIgnorePatterns))"

text \<open>Lines 221 to 310: what a request does once it has passed the checks.\<close>

definition startIndexing ::
  "env \<Rightarrow> string option \<Rightarrow> path \<Rightarrow> bool \<Rightarrow> string \<Rightarrow> string list \<Rightarrow> string list
     \<Rightarrow> response comp" where
  "startIndexing en codebasePath absolutePath forceReindex splitterType
       customFileExtensions customIgnorePatterns =
     seq (forceClear en forceReindex absolutePath) (\<lambda>u.
       validateAndStart en codebasePath absolutePath forceReindex splitterType
         customFileExtensions customIgnorePatterns)"

text \<open>
  Lines 158 to 310, the part of the \<open>try\<close> block after the reconciliation: the
  validation of the splitter and of the path, the checks against the snapshot, and
  then \<open>startIndexing\<close>.
\<close>

definition indexAfterSync :: "env \<Rightarrow> index_args \<Rightarrow> response comp" where
  "indexAfterSync en a =
     (let codebasePath = arg_path a;
          forceReindex = forceReindex_of a;
          splitterType = splitterType_of a;
          customFileExtensions = or_empty (arg_customExtensions a);
          customIgnorePatterns = or_empty (arg_ignorePatterns a)
      in
      if splitterType \<noteq> ''ast'' \<and> splitterType \<noteq> ''langchain''
      then ret \<lparr>content = InvalidSplitterType splitterType, isError = True\<rparr>
      else
      seq (lift (ensureAbsolutePath en codebasePath)) (\<lambda>absolutePath.
      if \<not> existsSync en absolutePath
      then ret \<lparr>content = PathDoesNotExist absolutePath codebasePath, isError = True\<rparr>
      else
      seq (lift (statSync_isDirectory en absolutePath)) (\<lambda>isDirectory.
      if \<not> isDirectory
      then ret \<lparr>content = PathNotADirectory absolutePath, isError = True\<rparr>
      else
      seq (gets (\<lambda>w. absolutePath \<in> set (getIndexingCodebases (snapshot w)))) (\<lambda>isIndexing.
      if isIndexing
      then ret \<lparr>content = AlreadyBeingIndexed absolutePath, isError = True\<rparr>
      else
      seq (call (HasIndex absolutePath) (hasIndex en absolutePath)) (\<lambda>has.
      seq (gets (\<lambda>w. absolutePath \<in> set (getIndexedCodebases (snapshot w)))) (\<lambda>isIndexed.
      if \<not> forceReindex \<and> isIndexed
      then ret \<lparr>content = AlreadyIndexed absolutePath, isError = True\<rparr>
      else
        startIndexing en codebasePath absolutePath forceReindex splitterType
          customFileExtensions customIgnorePatterns))))))"

text \<open>
  The handler. The destructuring of line 148 stands before the \<open>try\<close> block: on an
  absent argument object it throws, and nothing catches it.
\<close>

definition handleIndexCodebase :: "env \<Rightarrow> index_args option \<Rightarrow> response comp" where
  "handleIndexCodebase en args =
     (case args of
        None \<Rightarrow> (\<lambda>w. (Throw destructure_TypeError, w))
      | Some a \<Rightarrow>
          try_catch
            (seq (syncIndexedCodebasesFromCloud en) (\<lambda>u. indexAfterSync en a))
            (\<lambda>error.
               ret \<lparr>content = ErrorStartingIndexing (message_or_String error),
                    isError = True\<rparr>))"

subsection \<open>startBackgroundIndexing (lines 327 to 415)\<close>

text \<open>
  Lines 371 to 384, the progress callback, run for each callback the collaborator made:
  the percentage is recorded, and the snapshot is saved when 2000 ms have passed since
  the last save (\<open>lastSaveTime\<close> starts at 0).
\<close>

fun onProgress :: "path \<Rightarrow> (real \<times> int) list \<Rightarrow> int \<Rightarrow> unit comp" where
  "onProgress p [] lastSaveTime = ret ()"
| "onProgress p ((percentage, currentTime) # rest) lastSaveTime =
     seq (setCodebaseIndexing p percentage) (\<lambda>u.
       if currentTime - lastSaveTime \<ge> 2000
       then seq saveCodebaseSnapshot (\<lambda>u. onProgress p rest currentTime)
       else onProgress p rest lastSaveTime)"

definition set_indexingStats :: "(nat \<times> nat) option \<Rightarrow> unit comp" where
  "set_indexingStats v w = (Ret (), w\<lparr>indexingStats := v\<rparr>)"


subsection \<open>Notions for the statements and the proofs\<close>

text \<open>
  The events by which indexing of \<open>p\<close> begins: its record is set to indexing, its
  detached task is launched, or the collaborator is asked to index it.
\<close>

fun starts_indexing :: "path \<Rightarrow> event \<Rightarrow> bool" where
  "starts_indexing p (SetCodebaseIndexing q pct) = (q = p)"
| "starts_indexing p (StartBackgroundIndexing q f s) = (q = p)"
| "starts_indexing p (IndexCodebase q) = (q = p)"
| "starts_indexing p e = False"

text \<open>The events of a reconciliation.\<close>

fun reconcile_event :: "event \<Rightarrow> bool" where
  "reconcile_event ListCollections = True"
| "reconcile_event (Query n) = True"
| "reconcile_event (RemoveIndexedCodebase p) = True"
| "reconcile_event SaveCodebaseSnapshot = True"
| "reconcile_event e = False"

text \<open>A computation only adds to the history.\<close>

definition grows :: "'a comp \<Rightarrow> bool" where
  "grows m \<longleftrightarrow> (\<forall>w. prefix (trace w) (trace (snd (m w))))"

text \<open>The world after the removal of line 225, which takes place when \<open>p\<close> is indexed.\<close>

definition after_removal :: "path \<Rightarrow> world \<Rightarrow> world" where
  "after_removal p w =
     (if p \<in> set (getIndexedCodebases (snapshot w))
      then w\<lparr>snapshot := AList.delete p (snapshot w),
             trace := trace w @ [RemoveIndexedCodebase p]\<rparr>
      else w)"



text \<open>The world in which the task begins its calls: after the warning of line 342.\<close>

definition after_warning :: "string \<Rightarrow> world \<Rightarrow> world" where
  "after_warning splitterType w =
     (if splitterType \<noteq> ''ast''
      then w\<lparr>trace := trace w @ [Console (NonAstFallback splitterType)]\<rparr> else w)"





subsection \<open>Frames and example worlds\<close>

text \<open>A computation left the store alone: only the history may have grown.\<close>

definition same_store :: "world \<Rightarrow> world \<Rightarrow> bool" where
  "same_store w w' \<longleftrightarrow>
     snapshot w' = snapshot w \<and> persisted w' = persisted w
       \<and> indexingStats w' = indexingStats w"

text \<open>
  No remote change between two reconciliations: the listing and the queries answer
  the same whenever they are asked.
\<close>

definition remote_unchanged :: "env \<Rightarrow> bool" where
  "remote_unchanged en \<longleftrightarrow>
     (\<forall>t t'. listCollections en t = listCollections en t') \<and>
     (\<forall>n t t'. query en n t = query en n t')"

definition a_failure :: exn where
  "a_failure = ErrorObj ''Error'' ''embedding API timeout''"

text \<open>
  An environment in which every collaborator answers: one code collection, created for
  \<open>/repo\<close>; indexing reports 37 percent and resolves with 42 files and 310 chunks.
\<close>

definition repo_env :: env where
  "repo_env =
     \<lparr>listCollections = (\<lambda>t. Inr [''code_chunks_repo'']),
      query = (\<lambda>n t. Inr [Some ''{...}'']),
      jsonParse = (\<lambda>s. Inr (JObj [(''codebasePath'', JStr ''/repo'')])),
      hasIndex = (\<lambda>p t. Inr True),
      clearIndex = (\<lambda>p t. Inr ()),
      checkCollectionLimit = (\<lambda>t. Inr True),
      ensureAbsolutePath =
        (\<lambda>p. case p of Some s \<Rightarrow> Inr s
                | None \<Rightarrow> Inl (ErrorObj ''TypeError'' ''The path argument must be of type string'')),
      existsSync = (\<lambda>p. True),
      statSync_isDirectory = (\<lambda>p. Inr True),
      addCustomExtensions = (\<lambda>xs t. Inr ()),
      addCustomIgnorePatterns = (\<lambda>xs t. Inr ()),
      trackCodebasePath = (\<lambda>p t. Inr ()),
      prepareIndexing = (\<lambda>p t. Inr ()),
      indexCodebase =
        (\<lambda>p t. ([(37, 1000)],
                Inr \<lparr>indexedFiles = 42, totalChunks = 310, status = completed\<rparr>))\<rparr>"

definition repo_at_limit :: env where
  "repo_at_limit = repo_env\<lparr>checkCollectionLimit := (\<lambda>t. Inr False)\<rparr>"

definition repo_clear_fails :: env where
  "repo_clear_fails = repo_env\<lparr>clearIndex := (\<lambda>p t. Inl a_failure)\<rparr>"

definition repo_index_fails :: env where
  "repo_index_fails = repo_env\<lparr>indexCodebase := (\<lambda>p t. ([(37, 1000)], Inl a_failure))\<rparr>"

definition repo_prepare_fails :: env where
  "repo_prepare_fails = repo_env\<lparr>prepareIndexing := (\<lambda>p t. Inl a_failure)\<rparr>"

definition repo_empty_error :: env where
  "repo_empty_error =
     repo_env\<lparr>indexCodebase := (\<lambda>p t. ([(37, 1000)], Inl (ErrorObj ''Error'' [])))\<rparr>"

definition repo_limit_reached :: env where
  "repo_limit_reached =
     repo_env\<lparr>indexCodebase :=
       (\<lambda>p t. ([(37, 1000)],
               Inr \<lparr>indexedFiles = 42, totalChunks = 310, status = limit_reached\<rparr>))\<rparr>"

definition repo_indexed :: world where
  "repo_indexed =
     \<lparr>snapshot = [(''/repo'', RecIndexed 42 310)],
      persisted = [(''/repo'', RecIndexed 42 310)],
      indexingStats = None,
      trace = []\<rparr>"

definition repo_indexing :: world where
  "repo_indexing =
     \<lparr>snapshot = [(''/repo'', RecIndexing 0)],
      persisted = [(''/repo'', RecIndexing 0)],
      indexingStats = None,
      trace = []\<rparr>"

definition repo_fresh :: world where
  "repo_fresh = \<lparr>snapshot = [], persisted = [], indexingStats = None, trace = []\<rparr>"

definition repo_args :: index_args where
  "repo_args =
     \<lparr>arg_path = Some ''/repo'', arg_force = None, arg_splitter = None,
      arg_customExtensions = None, arg_ignorePatterns = None\<rparr>"

definition repo_args_langchain :: index_args where
  "repo_args_langchain = repo_args\<lparr>arg_splitter := Some ''langchain''\<rparr>"

definition repo_args_forced :: index_args where
  "repo_args_forced = repo_args\<lparr>arg_force := Some True\<rparr>"

section \<open>Properties\<close>

lemmas comp_defs = ret_def seq_def try_catch_def call_def emit_def gets_def lift_def

lemmas manager_defs = removeIndexedCodebase_def
  setCodebaseIndexing_def setCodebaseIndexed_def setCodebaseIndexFailed_def
  saveCodebaseSnapshot_def set_indexingStats_def

lemmas example_defs = repo_env_def repo_at_limit_def repo_clear_fails_def repo_index_fails_def
  repo_prepare_fails_def repo_empty_error_def repo_limit_reached_def repo_indexed_def
  repo_indexing_def repo_fresh_def repo_args_def repo_args_forced_def repo_args_langchain_def
  a_failure_def

subsection \<open>Reconciliation\<close>

lemma checkCollection_frame:
  "\<exists>c w'. checkCollection en n cloud w = (Ret c, w') \<and> same_store w w'"
  by (auto simp: checkCollection_def try_catch_def seq_def call_def ret_def lift_def same_store_def
           split: sum.splits list.splits option.splits prod.splits outcome.splits)

lemma checkCollections_frame:
  "\<exists>c w'. checkCollections en ns cloud w = (Ret c, w') \<and> same_store w w'"
proof (induction ns arbitrary: cloud w)
  case Nil
  show ?case by (simp add: ret_def same_store_def)
next
  case (Cons n ns)
  obtain c w1 where 1: "checkCollection en n cloud w = (Ret c, w1)" "same_store w w1"
    using checkCollection_frame by blast
  obtain c' w2 where 2: "checkCollections en ns c w1 = (Ret c', w2)" "same_store w1 w2"
    using Cons.IH by blast
  show ?case using 1 2 by (auto simp: seq_def same_store_def)
qed

lemma filter_delete_not_in:
  "filter (\<lambda>(k, r). \<not> (k \<in> set ps \<and> k \<notin> set cloud)) (AList.delete p s) =
   filter (\<lambda>(k, r). \<not> (k \<in> set (p # ps) \<and> k \<notin> set cloud)) s" if "p \<notin> set cloud"
  using that by (induction s) auto

lemma filter_keep_in:
  "filter (\<lambda>(k, r). \<not> (k \<in> set (p # ps) \<and> k \<notin> set cloud)) s =
   filter (\<lambda>(k, r). \<not> (k \<in> set ps \<and> k \<notin> set cloud)) s" if "p \<in> set cloud"
  using that by (induction s) auto

lemma removeNotInCloud_run:
  "removeNotInCloud cloud ps h w =
     (Ret (h \<or> (\<exists>p\<in>set ps. p \<notin> set cloud)),
      w\<lparr>snapshot := filter (\<lambda>(k, r). \<not> (k \<in> set ps \<and> k \<notin> set cloud)) (snapshot w),
        trace := trace w @ map RemoveIndexedCodebase (filter (\<lambda>p. p \<notin> set cloud) ps)\<rparr>)"
proof (induction ps arbitrary: h w)
  case Nil
  show ?case by (simp add: ret_def)
next
  case (Cons p ps)
  show ?case
  proof (cases "p \<in> set cloud")
    case True
    then show ?thesis
      using filter_keep_in [OF True, of ps "snapshot w"]
      by (auto simp: Cons.IH)
  next
    case False
    then show ?thesis
      using filter_delete_not_in [OF False, of ps "snapshot w"]
      by (auto simp: Cons.IH seq_def removeIndexedCodebase_def)
  qed
qed

lemma filter_delete_each:
  "filter (\<lambda>(k, r). k \<notin> set ps) (AList.delete p s) = filter (\<lambda>(k, r). k \<notin> set (p # ps)) s"
  by (induction s) auto

lemma removeEach_run:
  "removeEach ps w =
     (Ret (),
      w\<lparr>snapshot := filter (\<lambda>(k, r). k \<notin> set ps) (snapshot w),
        trace := trace w @ map RemoveIndexedCodebase ps\<rparr>)"
proof (induction ps arbitrary: w)
  case Nil
  show ?case by (simp add: ret_def)
next
  case (Cons p ps)
  show ?case
    using filter_delete_each [of ps p "snapshot w"]
    by (simp add: Cons.IH seq_def removeIndexedCodebase_def del: set_simps)
qed


lemma set_js_Set [simp]: "set (js_Set xs) = set xs"
  by (simp add: js_Set_def)

lemma sync_list_throws:
  assumes "listCollections en (trace w) = Inl e"
  shows "syncIndexedCodebasesFromCloud en w = (Ret (), w\<lparr>trace := trace w @ [ListCollections]\<rparr>)"
  using assms by (simp add: syncIndexedCodebasesFromCloud_def try_catch_def seq_def call_def ret_def)

lemma sync_list_empty:
  assumes "listCollections en (trace w) = Inr []"
  shows "fst (syncIndexedCodebasesFromCloud en w) = Ret ()"
    and "snapshot (snd (syncIndexedCodebasesFromCloud en w)) =
           filter (\<lambda>(k, r). k \<notin> set (getIndexedCodebases (snapshot w))) (snapshot w)"
    and "persisted (snd (syncIndexedCodebasesFromCloud en w)) =
           (if getIndexedCodebases (snapshot w) \<noteq> []
            then filter (\<lambda>(k, r). k \<notin> set (getIndexedCodebases (snapshot w))) (snapshot w)
            else persisted w)"
  using assms
  by (simp_all add: syncIndexedCodebasesFromCloud_def try_catch_def seq_def call_def ret_def
        gets_def removeEach_run saveCodebaseSnapshot_def)

lemma sync_list_some:
  assumes "listCollections en (trace w) = Inr (c # cs)"
    and "fst (checkCollections en (c # cs) [] (w\<lparr>trace := trace w @ [ListCollections]\<rparr>)) = Ret cloud"
  shows "fst (syncIndexedCodebasesFromCloud en w) = Ret ()"
    and "snapshot (snd (syncIndexedCodebasesFromCloud en w)) =
           filter (\<lambda>(k, r). \<not> (k \<in> set (getIndexedCodebases (snapshot w)) \<and> k \<notin> set cloud))
             (snapshot w)"
    and "persisted (snd (syncIndexedCodebasesFromCloud en w)) =
           (if \<exists>p\<in>set (getIndexedCodebases (snapshot w)). p \<notin> set cloud
            then filter (\<lambda>(k, r). \<not> (k \<in> set (getIndexedCodebases (snapshot w)) \<and> k \<notin> set cloud))
                   (snapshot w)
            else persisted w)"
proof -
  let ?w0 = "w\<lparr>trace := trace w @ [ListCollections]\<rparr>"
  obtain c' w1 where 1: "checkCollections en (c # cs) [] ?w0 = (Ret c', w1)" "same_store ?w0 w1"
    using checkCollections_frame by blast
  with assms(2) have 2: "c' = cloud" by simp
  have run: "syncIndexedCodebasesFromCloud en w =
     seq (removeNotInCloud cloud (js_Set (getIndexedCodebases (snapshot w1))) False)
       (\<lambda>hasChanges. if hasChanges then saveCodebaseSnapshot else ret ()) w1"
    using assms(1) 1(1) 2
    by (simp add: syncIndexedCodebasesFromCloud_def try_catch_def seq_def call_def ret_def
          gets_def removeNotInCloud_run saveCodebaseSnapshot_def del: checkCollections.simps)
  have s: "snapshot w1 = snapshot w" "persisted w1 = persisted w"
    using 1(2) by (simp_all add: same_store_def)
  show "fst (syncIndexedCodebasesFromCloud en w) = Ret ()"
    by (simp add: run seq_def removeNotInCloud_run saveCodebaseSnapshot_def ret_def)
  show "snapshot (snd (syncIndexedCodebasesFromCloud en w)) =
           filter (\<lambda>(k, r). \<not> (k \<in> set (getIndexedCodebases (snapshot w)) \<and> k \<notin> set cloud))
             (snapshot w)"
    by (simp add: run seq_def removeNotInCloud_run saveCodebaseSnapshot_def ret_def s)
  show "persisted (snd (syncIndexedCodebasesFromCloud en w)) =
           (if \<exists>p\<in>set (getIndexedCodebases (snapshot w)). p \<notin> set cloud
            then filter (\<lambda>(k, r). \<not> (k \<in> set (getIndexedCodebases (snapshot w)) \<and> k \<notin> set cloud))
                   (snapshot w)
            else persisted w)"
    by (simp add: run seq_def removeNotInCloud_run saveCodebaseSnapshot_def ret_def s)
qed

lemma sync_returns: "fst (syncIndexedCodebasesFromCloud en w) = Ret ()"
proof (cases "listCollections en (trace w)")
  case (Inl e)
  then show ?thesis by (simp add: sync_list_throws)
next
  case (Inr cols)
  show ?thesis
  proof (cases cols)
    case Nil
    with Inr show ?thesis by (simp add: sync_list_empty)
  next
    case (Cons c cs)
    obtain c' w1 where "checkCollections en (c # cs) [] (w\<lparr>trace := trace w @ [ListCollections]\<rparr>) = (Ret c', w1)"
      using checkCollections_frame by blast
    then have "fst (checkCollections en (c # cs) [] (w\<lparr>trace := trace w @ [ListCollections]\<rparr>)) = Ret c'"
      by simp
    with Inr Cons show ?thesis using sync_list_some(1) by blast
  qed
qed

lemma sync_cases:
  obtains (throws) e where "listCollections en (trace w) = Inl e"
  | (empty) "listCollections en (trace w) = Inr []"
  | (some) c cs cloud where "listCollections en (trace w) = Inr (c # cs)"
      "fst (checkCollections en (c # cs) [] (w\<lparr>trace := trace w @ [ListCollections]\<rparr>)) = Ret cloud"
proof (cases "listCollections en (trace w)")
  case (Inl e)
  then show ?thesis by (rule throws)
next
  case (Inr cols)
  show ?thesis
  proof (cases cols)
    case Nil
    with Inr show ?thesis by (simp add: empty)
  next
    case (Cons c cs)
    obtain c' w1 where "checkCollections en (c # cs) [] (w\<lparr>trace := trace w @ [ListCollections]\<rparr>) = (Ret c', w1)"
      using checkCollections_frame by blast
    then have "fst (checkCollections en (c # cs) [] (w\<lparr>trace := trace w @ [ListCollections]\<rparr>)) = Ret c'"
      by simp
    with Inr Cons show ?thesis using some by blast
  qed
qed

lemma sync_snapshot_subset:
  "set (snapshot (snd (syncIndexedCodebasesFromCloud en w))) \<subseteq> set (snapshot w)"
proof (cases rule: sync_cases [of en w])
  case (throws e)
  then show ?thesis by (simp add: sync_list_throws)
next
  case empty
  then show ?thesis by (simp add: sync_list_empty(2))
next
  case (some c cs cloud)
  then show ?thesis by (simp add: sync_list_some(2))
qed

lemma checkCollection_stable:
  assumes "remote_unchanged en"
  shows "fst (checkCollection en n cloud w) = fst (checkCollection en n cloud w')"
proof -
  have "query en n (trace w) = query en n (trace w')"
    using assms by (simp add: remote_unchanged_def)
  then show ?thesis
    by (auto simp: checkCollection_def try_catch_def seq_def call_def ret_def lift_def
           split: sum.splits list.splits option.splits prod.splits outcome.splits)
qed

lemma checkCollections_stable:
  assumes "remote_unchanged en"
  shows "fst (checkCollections en ns cloud w) = fst (checkCollections en ns cloud w')"
proof (induction ns arbitrary: cloud w w')
  case Nil
  show ?case by (simp add: ret_def)
next
  case (Cons n ns)
  obtain c w1 where 1: "checkCollection en n cloud w = (Ret c, w1)"
    using checkCollection_frame by blast
  obtain d w1' where 2: "checkCollection en n cloud w' = (Ret d, w1')"
    using checkCollection_frame by blast
  have "c = d" using checkCollection_stable [OF assms, of n cloud w w'] 1 2 by simp
  then show ?case using 1 2 Cons.IH [of c w1 w1'] by (simp add: seq_def)
qed

lemma indexed_of_filter:
  "set (getIndexedCodebases (filter (\<lambda>(k, r). Q k) s)) = {k \<in> set (getIndexedCodebases s). Q k}"
  by (induction s) (auto simp: getIndexedCodebases_def)

lemma sync_idempotent:
  assumes "remote_unchanged en"
    and w1_def: "w1 = snd (syncIndexedCodebasesFromCloud en w)"
    and w2_def: "w2 = snd (syncIndexedCodebasesFromCloud en w1)"
  shows "snapshot w2 = snapshot w1 \<and> persisted w2 = persisted w1"
proof (cases rule: sync_cases [of en w])
  case (throws e)
  then have "listCollections en (trace w1) = Inl e"
    using assms(1) unfolding remote_unchanged_def by metis
  then show ?thesis by (simp add: w2_def sync_list_throws)
next
  case empty
  then have l: "listCollections en (trace w1) = Inr []"
    using assms(1) unfolding remote_unchanged_def by metis
  have s1: "snapshot w1 = filter (\<lambda>(k, r). k \<notin> set (getIndexedCodebases (snapshot w))) (snapshot w)"
    unfolding w1_def using empty by (rule sync_list_empty(2))
  have "set (getIndexedCodebases (snapshot w1)) = {}"
    unfolding s1 indexed_of_filter by simp
  then have "getIndexedCodebases (snapshot w1) = []" by simp
  then show ?thesis
    unfolding w2_def using sync_list_empty(2,3) [OF l] by simp
next
  case (some c cs cloud)
  then have l: "listCollections en (trace w1) = Inr (c # cs)"
    using assms(1) unfolding remote_unchanged_def by metis
  have c: "fst (checkCollections en (c # cs) [] (w1\<lparr>trace := trace w1 @ [ListCollections]\<rparr>)) = Ret cloud"
    using checkCollections_stable [OF assms(1)] some(2) by metis
  have s1: "snapshot w1 = filter (\<lambda>(k, r). \<not> (k \<in> set (getIndexedCodebases (snapshot w)) \<and> k \<notin> set cloud)) (snapshot w)"
    unfolding w1_def using some by (rule sync_list_some(2))
  have i: "\<forall>p\<in>set (getIndexedCodebases (snapshot w1)). p \<in> set cloud"
    unfolding s1 indexed_of_filter by auto
  have "filter (\<lambda>(k, r). \<not> (k \<in> set (getIndexedCodebases (snapshot w1)) \<and> k \<notin> set cloud)) (snapshot w1)
        = snapshot w1"
    using i by (auto simp: filter_id_conv)
  then show ?thesis
    unfolding w2_def using sync_list_some(2,3) [OF l c] i by auto
qed



subsection \<open>The snapshot and the history across a reconciliation\<close>

lemma handle_after_sync:
  "handleIndexCodebase en (Some a) w =
     try_catch (indexAfterSync en a)
       (\<lambda>error. ret \<lparr>content = ErrorStartingIndexing (message_or_String error), isError = True\<rparr>)
       (snd (syncIndexedCodebasesFromCloud en w))"
proof -
  obtain w1 where "syncIndexedCodebasesFromCloud en w = (Ret (), w1)"
    using sync_returns [of en w] by (cases "syncIndexedCodebasesFromCloud en w") auto
  then show ?thesis
    by (simp add: handleIndexCodebase_def try_catch_def seq_def)
qed

lemma indexing_status_listed:
  assumes "getCodebaseStatus s p = indexing"
  shows "p \<in> set (getIndexingCodebases s)"
proof -
  obtain r where r: "map_of s p = Some r" "record_status r = indexing"
    using assms by (auto simp: getCodebaseStatus_def split: option.splits)
  then have "(p, r) \<in> set s" by (simp add: map_of_SomeD)
  with r(2) show ?thesis by (force simp: getIndexingCodebases_def)
qed

lemma status_not_indexing:
  "p \<notin> set (getIndexingCodebases s) \<Longrightarrow> getCodebaseStatus s p \<noteq> indexing"
  using indexing_status_listed by blast

lemma status_delete: "getCodebaseStatus (AList.delete p s) p = not_found"
  by (simp add: getCodebaseStatus_def delete_conv')

lemma events_since_append [simp]:
  "events_since w (w'\<lparr>trace := trace w @ es\<rparr>) = es"
  by (simp add: events_since_def)

lemma events_since_self [simp]: "events_since w w = []"
  by (simp add: events_since_def)


lemma checkCollection_trace:
  "\<exists>es. trace (snd (checkCollection en n cloud w)) = trace w @ es \<and> list_all reconcile_event es"
  by (auto simp: checkCollection_def comp_defs
           split: sum.splits list.splits option.splits)

lemma checkCollections_trace:
  "\<exists>es. trace (snd (checkCollections en ns cloud w)) = trace w @ es \<and> list_all reconcile_event es"
proof (induction ns arbitrary: cloud w)
  case Nil
  show ?case by (simp add: ret_def)
next
  case (Cons n ns)
  obtain c w1 where 1: "checkCollection en n cloud w = (Ret c, w1)"
    using checkCollection_frame by blast
  obtain es1 where 2: "trace w1 = trace w @ es1" "list_all reconcile_event es1"
    using checkCollection_trace [of en n cloud w] 1 by auto
  obtain es2 where 3: "trace (snd (checkCollections en ns c w1)) = trace w1 @ es2"
      "list_all reconcile_event es2"
    using Cons.IH by blast
  have "trace (snd (checkCollections en (n # ns) cloud w)) = trace w @ (es1 @ es2)"
    using 1 2 3 by (simp add: seq_def)
  moreover have "list_all reconcile_event (es1 @ es2)" using 2 3 by simp
  ultimately show ?case by blast
qed

lemma sync_trace:
  "\<exists>es. trace (snd (syncIndexedCodebasesFromCloud en w)) = trace w @ es
        \<and> list_all reconcile_event es"
proof (cases "listCollections en (trace w)")
  case (Inl e)
  then show ?thesis by (simp add: sync_list_throws)
next
  case (Inr cols)
  let ?w0 = "w\<lparr>trace := trace w @ [ListCollections]\<rparr>"
  show ?thesis
  proof (cases cols)
    case Nil
    with Inr show ?thesis
      by (simp add: syncIndexedCodebasesFromCloud_def comp_defs removeEach_run
            saveCodebaseSnapshot_def list_all_iff)
  next
    case (Cons c cs)
    obtain cloud w1 where 1: "checkCollections en (c # cs) [] ?w0 = (Ret cloud, w1)"
      using checkCollections_frame by blast
    obtain es where 2: "trace w1 = trace ?w0 @ es" "list_all reconcile_event es"
      using checkCollections_trace [of en "c # cs" "[]" ?w0] 1 by auto
    have "list_all reconcile_event (map RemoveIndexedCodebase ps)" for ps
      by (simp add: list_all_iff)
    then show ?thesis
      using Inr Cons 1 2
      by (simp add: syncIndexedCodebasesFromCloud_def comp_defs removeNotInCloud_run
            saveCodebaseSnapshot_def del: checkCollections.simps)
  qed
qed

lemma sync_events_reconcile:
  "list_all reconcile_event (events_since w (snd (syncIndexedCodebasesFromCloud en w)))"
  using sync_trace [of en w] by (auto simp: events_since_def)

lemma sync_snapshot_filter:
  "\<exists>keep. snapshot (snd (syncIndexedCodebasesFromCloud en w)) = filter keep (snapshot w)
      \<and> (\<forall>p r. (p, r) \<in> set (snapshot w) \<and> p \<notin> set (getIndexedCodebases (snapshot w))
            \<longrightarrow> keep (p, r))"
proof (cases rule: sync_cases [of en w])
  case (throws e)
  then show ?thesis
    by (intro exI [of _ "\<lambda>x. True"]) (simp add: sync_list_throws)
next
  case empty
  then show ?thesis
    by (intro exI [of _ "\<lambda>(k, r). k \<notin> set (getIndexedCodebases (snapshot w))"])
       (simp add: sync_list_empty(2))
next
  case (some c cs cloud)
  then show ?thesis
    by (intro exI [of _ "\<lambda>(k, r). \<not> (k \<in> set (getIndexedCodebases (snapshot w)) \<and> k \<notin> set cloud)"])
       (simp add: sync_list_some(2))
qed

lemma sync_keeps_distinct:
  "distinct (map fst (snapshot w)) \<Longrightarrow>
   distinct (map fst (snapshot (snd (syncIndexedCodebasesFromCloud en w))))"
  using sync_snapshot_filter [of en w] by (auto simp: distinct_map_filter)

lemma reconcile_not_start: "list_all reconcile_event es \<Longrightarrow> filter (starts_indexing p) es = []"
proof (induction es)
  case Nil
  show ?case by simp
next
  case (Cons e es)
  then show ?case by (cases e) simp_all
qed

lemma reconcile_not_clear: "list_all reconcile_event es \<Longrightarrow> ClearIndex p \<notin> set es"
  by (induction es) auto

lemma before_reconcile:
  "list_all reconcile_event es \<Longrightarrow>
   events_before (ClearIndex p) (es @ xs) = es @ events_before (ClearIndex p) xs"
  by (induction es) (auto simp: events_before_def)

lemma events_since_trans:
  "trace w1 = trace w @ es \<Longrightarrow> events_since w (w'\<lparr>trace := trace w1 @ xs\<rparr>) = es @ xs"
  by (simp add: events_since_def)

lemma same_key_same_record:
  "distinct (map fst s) \<Longrightarrow> (p, r) \<in> set s \<Longrightarrow> (p, r') \<in> set s \<Longrightarrow> r = r'"
  by (meson eq_key_imp_eq_value)

lemma status_entry_ex:
  assumes "getCodebaseStatus s p = st" and "st \<noteq> not_found"
  shows "\<exists>r. (p, r) \<in> set s \<and> record_status r = st"
  using assms by (auto simp: getCodebaseStatus_def split: option.splits dest: map_of_SomeD)

lemma indexed_listed: "p \<in> set (getIndexedCodebases s) \<longleftrightarrow> (\<exists>r. (p, r) \<in> set s \<and> record_status r = indexed)"
  by (force simp: getIndexedCodebases_def)

lemma indexing_listed: "p \<in> set (getIndexingCodebases s) \<longleftrightarrow> (\<exists>r. (p, r) \<in> set s \<and> record_status r = indexing)"
  by (force simp: getIndexingCodebases_def)

lemma sync_keeps_indexing:
  assumes "distinct (map fst (snapshot w))" and "getCodebaseStatus (snapshot w) p = indexing"
  shows "p \<in> set (getIndexingCodebases (snapshot (snd (syncIndexedCodebasesFromCloud en w))))"
proof -
  obtain r where r: "(p, r) \<in> set (snapshot w)" "record_status r = indexing"
    using status_entry_ex [OF assms(2)] by auto
  have "p \<notin> set (getIndexedCodebases (snapshot w))"
    using same_key_same_record [OF assms(1) r(1)] r(2) by (auto simp: indexed_listed)
  with r(1) have "(p, r) \<in> set (snapshot (snd (syncIndexedCodebasesFromCloud en w)))"
    using sync_snapshot_filter [of en w] by auto
  with r(2) show ?thesis by (auto simp: indexing_listed)
qed

lemma sync_indexed_after:
  fixes en w
  defines "s1 \<equiv> snapshot (snd (syncIndexedCodebasesFromCloud en w))"
  assumes "distinct (map fst (snapshot w))" and "getCodebaseStatus (snapshot w) p = indexed"
  shows "p \<notin> set (getIndexingCodebases s1)"
    and "p \<in> set (getIndexedCodebases s1) \<or> getCodebaseStatus s1 p = not_found"
proof -
  obtain r where r: "(p, r) \<in> set (snapshot w)" "record_status r = indexed"
    using status_entry_ex [OF assms(3)] by auto
  have sub: "set s1 \<subseteq> set (snapshot w)"
    unfolding s1_def by (rule sync_snapshot_subset)
  have only: "r' = r" if "(p, r') \<in> set s1" for r'
    using same_key_same_record [OF assms(2) r(1)] sub that by auto
  show "p \<notin> set (getIndexingCodebases s1)"
    using only r(2) by (auto simp: indexing_listed)
  show "p \<in> set (getIndexedCodebases s1) \<or> getCodebaseStatus s1 p = not_found"
  proof (cases "map_of s1 p")
    case None
    then show ?thesis by (simp add: getCodebaseStatus_def)
  next
    case (Some r')
    then have "(p, r') \<in> set s1" by (rule map_of_SomeD)
    with only r(2) show ?thesis by (auto simp: indexed_listed)
  qed
qed

subsection \<open>Reconciliation only removes\<close>

text \<open>
  C7. Reconciliation never inserts a path into the local snapshot: the only calls it
  makes to the snapshot manager are removals and saves, the records after it are
  records that were there before, so the recorded paths after it are among the paths
  before. And run twice with no remote change in between, the second run changes
  neither the in-memory snapshot nor the persisted one.
\<close>

theorem sync_shrinks_and_is_idempotent:
  "list_all reconcile_event (events_since w (snd (syncIndexedCodebasesFromCloud en w)))
   \<and> set (snapshot (snd (syncIndexedCodebasesFromCloud en w))) \<subseteq> set (snapshot w)
   \<and> fst ` set (snapshot (snd (syncIndexedCodebasesFromCloud en w))) \<subseteq> fst ` set (snapshot w)
   \<and> (remote_unchanged en \<longrightarrow>
        snapshot (snd (syncIndexedCodebasesFromCloud en (snd (syncIndexedCodebasesFromCloud en w))))
          = snapshot (snd (syncIndexedCodebasesFromCloud en w))
        \<and> persisted (snd (syncIndexedCodebasesFromCloud en (snd (syncIndexedCodebasesFromCloud en w))))
          = persisted (snd (syncIndexedCodebasesFromCloud en w)))"
  using sync_events_reconcile [of w en] sync_snapshot_subset [of en w]
    sync_idempotent [of en _ w]
  by blast

theorem sync_shrinks_and_is_idempotent_witness:
  "remote_unchanged repo_env
   \<and> fst ` set (snapshot (snd (syncIndexedCodebasesFromCloud repo_env repo_indexed)))
        \<subseteq> fst ` set (snapshot repo_indexed)
   \<and> snapshot (snd (syncIndexedCodebasesFromCloud repo_env
         (snd (syncIndexedCodebasesFromCloud repo_env repo_indexed))))
        = snapshot (snd (syncIndexedCodebasesFromCloud repo_env repo_indexed))
   \<and> persisted (snd (syncIndexedCodebasesFromCloud repo_env
         (snd (syncIndexedCodebasesFromCloud repo_env repo_indexed))))
        = persisted (snd (syncIndexedCodebasesFromCloud repo_env repo_indexed))"
proof -
  have r: "remote_unchanged repo_env"
    by (simp add: remote_unchanged_def repo_env_def)
  show ?thesis
    using r sync_shrinks_and_is_idempotent [where en = repo_env and w = repo_indexed] by simp
qed

subsection \<open>Failures during reconciliation\<close>




subsection \<open>The handler, stage by stage\<close>

lemma snd_try_catch_ret [simp]:
  "snd (try_catch m (\<lambda>e. ret (g e)) w) = snd (m w)"
  by (simp add: try_catch_def ret_def split: prod.split outcome.split)

lemma fst_try_catch_ret:
  "fst (try_catch m (\<lambda>e. ret (g e)) w) =
     (case fst (m w) of Ret x \<Rightarrow> Ret x | Throw e \<Rightarrow> Ret (g e))"
  by (simp add: try_catch_def ret_def split: prod.split outcome.split)

lemma indexAfterSync_valid:
  assumes "splitterType_of a = ''ast'' \<or> splitterType_of a = ''langchain''"
    and "ensureAbsolutePath en (arg_path a) = Inr P"
    and "existsSync en P"
    and "statSync_isDirectory en P = Inr True"
  shows "indexAfterSync en a w =
    (if P \<in> set (getIndexingCodebases (snapshot w))
     then (Ret \<lparr>content = AlreadyBeingIndexed P, isError = True\<rparr>, w)
     else case hasIndex en P (trace w) of
        Inl x \<Rightarrow> (Throw x, w\<lparr>trace := trace w @ [HasIndex P]\<rparr>)
      | Inr has \<Rightarrow>
          if \<not> forceReindex_of a \<and> P \<in> set (getIndexedCodebases (snapshot w))
          then (Ret \<lparr>content = AlreadyIndexed P, isError = True\<rparr>,
                w\<lparr>trace := trace w @ [HasIndex P]\<rparr>)
          else startIndexing en (arg_path a) P (forceReindex_of a) (splitterType_of a)
                 (or_empty (arg_customExtensions a)) (or_empty (arg_ignorePatterns a))
                 (w\<lparr>trace := trace w @ [HasIndex P]\<rparr>))"
  using assms(1)
  by (elim disjE; simp add: indexAfterSync_def Let_def comp_defs assms(2-4) split: sum.split)

lemma preflight_run:
  "preflight en w =
     (Ret (case checkCollectionLimit en (trace w) of
             Inl e \<Rightarrow> Some \<lparr>content = ErrorValidatingCollection (message_or_String e),
                             isError = True\<rparr>
           | Inr can \<Rightarrow> if can then None
                        else Some \<lparr>content = CollectionLimitMessage, isError = True\<rparr>),
      w\<lparr>trace := trace w @ [CheckCollectionLimit]\<rparr>)"
  by (simp add: preflight_def comp_defs split: sum.split)

lemma forceClear_forced:
  "forceClear en True p w =
     (case hasIndex en p (trace (after_removal p w)) of
        Inl x \<Rightarrow> (Throw x, after_removal p w\<lparr>trace := trace (after_removal p w) @ [HasIndex p]\<rparr>)
      | Inr has \<Rightarrow>
          if has then
            (case clearIndex en p (trace (after_removal p w) @ [HasIndex p]) of
               Inl x \<Rightarrow> (Throw x, after_removal p w
                            \<lparr>trace := trace (after_removal p w) @ [HasIndex p, ClearIndex p]\<rparr>)
             | Inr u \<Rightarrow> (Ret (), after_removal p w
                            \<lparr>trace := trace (after_removal p w) @ [HasIndex p, ClearIndex p]\<rparr>))
          else (Ret (), after_removal p w\<lparr>trace := trace (after_removal p w) @ [HasIndex p]\<rparr>))"
  by (simp add: forceClear_def after_removal_def comp_defs manager_defs split: sum.split)

lemma forceClear_unforced: "forceClear en False p w = (Ret (), w)"
  by (simp add: forceClear_def ret_def)

subsection \<open>Growth of the history\<close>

lemma grows_ret [simp]: "grows (ret x)"
  by (simp add: grows_def ret_def)

lemma grows_gets [simp]: "grows (gets f)"
  by (simp add: grows_def gets_def)

lemma grows_lift [simp]: "grows (lift r)"
  by (simp add: grows_def lift_def split: sum.split)

lemma grows_call [simp]: "grows (call e f)"
  by (simp add: grows_def call_def split: sum.split)

lemma grows_emit [simp]: "grows (emit e)"
  by (simp add: grows_def emit_def)

lemma grows_manager [simp]:
  "grows (removeIndexedCodebase p)"
  "grows (setCodebaseIndexing p pct)" "grows (setCodebaseIndexed p st)"
  "grows (setCodebaseIndexFailed p msg lp)" "grows saveCodebaseSnapshot"
  by (simp_all add: grows_def manager_defs)

lemma grows_seq:
  assumes "grows m" and "\<And>x. grows (f x)"
  shows "grows (seq m f)"
proof -
  have "prefix (trace w) (trace (snd (seq m f w)))" for w
  proof (cases "m w")
    case (Pair r w1)
    have 1: "prefix (trace w) (trace w1)"
      using assms(1) Pair by (auto simp: grows_def dest: spec [of _ w])
    show ?thesis
    proof (cases r)
      case (Ret x)
      have "prefix (trace w1) (trace (snd (f x w1)))"
        using assms(2) [of x] by (simp add: grows_def)
      with 1 show ?thesis using Pair Ret by (auto simp: seq_def)
    next
      case (Throw e)
      with 1 show ?thesis using Pair by (simp add: seq_def)
    qed
  qed
  then show ?thesis by (simp add: grows_def)
qed

lemma grows_try_catch:
  assumes "grows m" and "\<And>e. grows (h e)"
  shows "grows (try_catch m h)"
proof -
  have "prefix (trace w) (trace (snd (try_catch m h w)))" for w
  proof (cases "m w")
    case (Pair r w1)
    have 1: "prefix (trace w) (trace w1)"
      using assms(1) Pair by (auto simp: grows_def dest: spec [of _ w])
    show ?thesis
    proof (cases r)
      case (Ret x)
      with 1 show ?thesis using Pair by (simp add: try_catch_def)
    next
      case (Throw e)
      have "prefix (trace w1) (trace (snd (h e w1)))"
        using assms(2) [of e] by (simp add: grows_def)
      with 1 show ?thesis using Pair Throw by (auto simp: try_catch_def)
    qed
  qed
  then show ?thesis by (simp add: grows_def)
qed

lemma grows_case_option:
  "grows m \<Longrightarrow> (\<And>x. grows (f x)) \<Longrightarrow> grows (case v of None \<Rightarrow> m | Some x \<Rightarrow> f x)"
  by (cases v) simp_all

lemma grows_preflight: "grows (preflight en)"
  by (simp add: preflight_def grows_try_catch grows_seq)

lemma grows_registerCustom: "grows (registerCustom en xs ys)"
  by (simp add: registerCustom_def grows_seq)

lemma grows_commitIndexing: "grows (commitIndexing en cp p f s xs ys)"
  by (simp add: commitIndexing_def grows_seq)

lemma grows_validateAndStart: "grows (validateAndStart en cp p f s xs ys)"
  unfolding validateAndStart_def
  by (intro grows_seq grows_case_option grows_preflight grows_registerCustom
        grows_commitIndexing grows_ret)

lemma grown:
  assumes "grows m"
  obtains es where "trace (snd (m w)) = trace w @ es"
  using assms by (auto simp: grows_def prefix_def)

lemma validateAndStart_limit:
  assumes "checkCollectionLimit en (trace w) = Inr False"
  shows "validateAndStart en cp p f s xs ys w =
           (Ret \<lparr>content = CollectionLimitMessage, isError = True\<rparr>,
            w\<lparr>trace := trace w @ [CheckCollectionLimit]\<rparr>)"
  unfolding validateAndStart_def
  by (subst seq_def) (simp add: preflight_run assms ret_def)

lemma startIndexing_unforced:
  "startIndexing en cp p False s xs ys w = validateAndStart en cp p False s xs ys w"
  by (simp add: startIndexing_def seq_def forceClear_unforced)

lemma startIndexing_forced:
  "startIndexing en cp p True s xs ys w =
     (case hasIndex en p (trace (after_removal p w)) of
        Inl x \<Rightarrow> (Throw x, after_removal p w\<lparr>trace := trace (after_removal p w) @ [HasIndex p]\<rparr>)
      | Inr has \<Rightarrow>
          if has then
            (case clearIndex en p (trace (after_removal p w) @ [HasIndex p]) of
               Inl x \<Rightarrow> (Throw x, after_removal p w
                            \<lparr>trace := trace (after_removal p w) @ [HasIndex p, ClearIndex p]\<rparr>)
             | Inr u \<Rightarrow> validateAndStart en cp p True s xs ys (after_removal p w
                            \<lparr>trace := trace (after_removal p w) @ [HasIndex p, ClearIndex p]\<rparr>))
          else validateAndStart en cp p True s xs ys
                 (after_removal p w\<lparr>trace := trace (after_removal p w) @ [HasIndex p]\<rparr>))"
  by (simp add: startIndexing_def seq_def forceClear_forced split: sum.split)

lemma handle_world:
  "snd (handleIndexCodebase en (Some a) w)
     = snd (indexAfterSync en a (snd (syncIndexedCodebasesFromCloud en w)))"
  by (simp add: handle_after_sync)

lemma handle_result:
  "fst (handleIndexCodebase en (Some a) w) =
     (case fst (indexAfterSync en a (snd (syncIndexedCodebasesFromCloud en w))) of
        Ret x \<Rightarrow> Ret x
      | Throw e \<Rightarrow> Ret \<lparr>content = ErrorStartingIndexing (message_or_String e), isError = True\<rparr>)"
  by (simp add: handle_after_sync fst_try_catch_ret)

lemma after_removal_facts:
  "persisted (after_removal p w) = persisted w"
  "getCodebaseStatus (snapshot w) p \<noteq> indexing \<Longrightarrow>
     getCodebaseStatus (snapshot (after_removal p w)) p \<noteq> indexing"
  "events_since w0 (after_removal p w) = events_since w0 w
     \<or> events_since w0 (after_removal p w) = events_since w0 w @ [RemoveIndexedCodebase p]" if "length (trace w0) \<le> length (trace w)"
  using that by (auto simp: after_removal_def status_delete events_since_def)

lemma capacity_run:
  assumes "splitterType_of a = ''ast'' \<or> splitterType_of a = ''langchain''"
    and "ensureAbsolutePath en (arg_path a) = Inr P"
    and "existsSync en P"
    and "statSync_isDirectory en P = Inr True"
    and "P \<notin> set (getIndexingCodebases (snapshot w1))"
    and "forceReindex_of a \<or> P \<notin> set (getIndexedCodebases (snapshot w1))"
    and "\<forall>t. checkCollectionLimit en t = Inr False"
  shows "((\<forall>t. hasIndex en P t = Inr (h t)) \<and> (\<forall>t. clearIndex en P t = Inr ()) \<longrightarrow>
            fst (indexAfterSync en a w1)
              = Ret \<lparr>content = CollectionLimitMessage, isError = True\<rparr>)
         \<and> filter (starts_indexing P) (events_since w1 (snd (indexAfterSync en a w1))) = []
         \<and> getCodebaseStatus (snapshot (snd (indexAfterSync en a w1))) P \<noteq> indexing"
proof (cases "forceReindex_of a")
  case False
  then show ?thesis
    using assms(5-7) status_not_indexing [OF assms(5)]
    by (auto simp: indexAfterSync_valid [OF assms(1-4)] startIndexing_unforced
          validateAndStart_limit events_since_def split: sum.split)
next
  case True
  have st: "getCodebaseStatus (snapshot (after_removal P w)) P \<noteq> indexing"
    if "snapshot w = snapshot w1" for w
    using status_not_indexing [OF assms(5)] that by (simp add: after_removal_def status_delete)
  have tr: "trace (after_removal P w) = trace w
            \<or> trace (after_removal P w) = trace w @ [RemoveIndexedCodebase P]" for w
    by (simp add: after_removal_def)
  show ?thesis
    using True assms(5,7) status_not_indexing [OF assms(5)]
      st [of "w1\<lparr>trace := trace w1 @ [HasIndex P]\<rparr>"]
      tr [of "w1\<lparr>trace := trace w1 @ [HasIndex P]\<rparr>"]
    by (auto simp: indexAfterSync_valid [OF assms(1-4)] startIndexing_forced
          validateAndStart_limit events_since_def split: sum.split)
qed


lemma grows_if: "grows m \<Longrightarrow> grows n \<Longrightarrow> grows (if c then m else n)"
  by simp

lemma grows_forceClear: "grows (forceClear en f p)"
  unfolding forceClear_def
  by (intro grows_seq grows_if grows_gets grows_call grows_ret grows_manager)

lemma grows_startIndexing: "grows (startIndexing en cp p f s xs ys)"
  unfolding startIndexing_def
  by (intro grows_seq grows_forceClear grows_validateAndStart)

lemma grows_indexAfterSync: "grows (indexAfterSync en a)"
  unfolding indexAfterSync_def Let_def
  by (intro grows_seq grows_if grows_gets grows_call grows_ret grows_lift grows_startIndexing)

lemma events_since_split:
  "prefix (trace w) (trace w1) \<Longrightarrow> prefix (trace w1) (trace w') \<Longrightarrow>
   events_since w w' = events_since w w1 @ events_since w1 w'"
  by (auto simp: prefix_def events_since_def)

lemma whole_call_events:
  "events_since w (snd (indexAfterSync en a (snd (syncIndexedCodebasesFromCloud en w)))) =
     events_since w (snd (syncIndexedCodebasesFromCloud en w))
     @ events_since (snd (syncIndexedCodebasesFromCloud en w))
         (snd (indexAfterSync en a (snd (syncIndexedCodebasesFromCloud en w))))"
proof -
  have "prefix (trace w) (trace (snd (syncIndexedCodebasesFromCloud en w)))"
    using sync_trace [of en w] by auto
  moreover have "prefix (trace (snd (syncIndexedCodebasesFromCloud en w)))
      (trace (snd (indexAfterSync en a (snd (syncIndexedCodebasesFromCloud en w)))))"
    using grows_indexAfterSync by (simp add: grows_def)
  ultimately show ?thesis
    by (rule events_since_split)
qed

lemma before_reconcile_events:
  "list_all reconcile_event es \<Longrightarrow> \<not> reconcile_event e \<Longrightarrow>
   events_before e (es @ xs) = es @ events_before e xs"
  by (induction es) (auto simp: events_before_def)

subsection \<open>A request at capacity\<close>

text \<open>
  C1. A request for a valid directory \<open>P\<close> that passes the check against the paths being
  indexed and the check against the indexed paths, while the collection limit check
  answers false: the response is the capacity message, flagged as an error (when the
  calls before the check do not throw, so that the check is reached); no event of the
  whole call sets the record of \<open>P\<close> to indexing, launches its task or asks the
  collaborator to index it; and the record of \<open>P\<close> is not indexing afterwards.
\<close>

theorem capacity_exceeded_starts_nothing:
  assumes "splitterType_of a = ''ast'' \<or> splitterType_of a = ''langchain''"
    and "ensureAbsolutePath en (arg_path a) = Inr P"
    and "existsSync en P"
    and "statSync_isDirectory en P = Inr True"
    and "P \<notin> set (getIndexingCodebases (snapshot (snd (syncIndexedCodebasesFromCloud en w))))"
    and "forceReindex_of a
         \<or> P \<notin> set (getIndexedCodebases (snapshot (snd (syncIndexedCodebasesFromCloud en w))))"
    and "\<forall>t. checkCollectionLimit en t = Inr False"
  shows "((\<forall>t. hasIndex en P t = Inr (h t)) \<and> (\<forall>t. clearIndex en P t = Inr ()) \<longrightarrow>
            fst (handleIndexCodebase en (Some a) w)
              = Ret \<lparr>content = CollectionLimitMessage, isError = True\<rparr>)
         \<and> filter (starts_indexing P)
              (events_since w (snd (handleIndexCodebase en (Some a) w))) = []
         \<and> getCodebaseStatus (snapshot (snd (handleIndexCodebase en (Some a) w))) P \<noteq> indexing"
  using capacity_run [OF assms, of h]
    reconcile_not_start [OF sync_events_reconcile, of P w en]
  by (simp add: handle_result handle_world whole_call_events)

lemma indexing_response:
  assumes "P \<in> set (getIndexingCodebases (snapshot (snd (syncIndexedCodebasesFromCloud en w))))"
    and "splitterType_of a = ''ast'' \<or> splitterType_of a = ''langchain''"
    and "ensureAbsolutePath en (arg_path a) = Inr P"
    and "existsSync en P"
    and "statSync_isDirectory en P = Inr True"
  shows "fst (handleIndexCodebase en (Some a) w)
           = Ret \<lparr>content = AlreadyBeingIndexed P, isError = True\<rparr>"
  by (simp add: handle_result indexAfterSync_valid [OF assms(2-5)] assms(1))

lemma indexing_safety:
  assumes "P \<in> set (getIndexingCodebases (snapshot (snd (syncIndexedCodebasesFromCloud en w))))"
    and "ensureAbsolutePath en (arg_path a) = Inr P"
  shows "snd (handleIndexCodebase en (Some a) w) = snd (syncIndexedCodebasesFromCloud en w)"
  by (simp add: handle_world indexAfterSync_def Let_def comp_defs assms split: sum.split)

subsection \<open>A request for a path being indexed\<close>

text \<open>
  C2. A request for a path \<open>P\<close> whose record is indexing (in a snapshot with one record
  per path): for a valid request the response is "already being indexed ... Please wait",
  flagged as an error; and whatever the other arguments, the call does nothing beyond its
  reconciliation, so it launches no task and never has \<open>P\<close> indexed.
\<close>

theorem already_indexing_rejected:
  assumes "distinct (map fst (snapshot w))"
    and "getCodebaseStatus (snapshot w) P = indexing"
    and "ensureAbsolutePath en (arg_path a) = Inr P"
  shows "((splitterType_of a = ''ast'' \<or> splitterType_of a = ''langchain'')
            \<and> existsSync en P \<and> statSync_isDirectory en P = Inr True \<longrightarrow>
            fst (handleIndexCodebase en (Some a) w)
              = Ret \<lparr>content = AlreadyBeingIndexed P, isError = True\<rparr>)
         \<and> snd (handleIndexCodebase en (Some a) w) = snd (syncIndexedCodebasesFromCloud en w)
         \<and> filter (starts_indexing P)
              (events_since w (snd (handleIndexCodebase en (Some a) w))) = []"
proof -
  have i: "P \<in> set (getIndexingCodebases (snapshot (snd (syncIndexedCodebasesFromCloud en w))))"
    by (rule sync_keeps_indexing [OF assms(1,2)])
  have same: "snd (handleIndexCodebase en (Some a) w) = snd (syncIndexedCodebasesFromCloud en w)"
    using i assms(3) by (rule indexing_safety)
  have ev: "filter (starts_indexing P) (events_since w (snd (handleIndexCodebase en (Some a) w))) = []"
    unfolding same using sync_events_reconcile by (rule reconcile_not_start)
  have resp: "fst (handleIndexCodebase en (Some a) w)
              = Ret \<lparr>content = AlreadyBeingIndexed P, isError = True\<rparr>"
    if "splitterType_of a = ''ast'' \<or> splitterType_of a = ''langchain''"
      and "existsSync en P" and "statSync_isDirectory en P = Inr True"
    using indexing_response [OF i that(1) assms(3) that(2,3)] by simp
  show ?thesis
    using resp same ev by blast
qed


lemma getIndexedCodebases_eval:
  "getIndexedCodebases [] = []"
  "getIndexedCodebases ((p, r) # s) =
     (if record_status r = indexed then p # getIndexedCodebases s else getIndexedCodebases s)"
  by (simp_all add: getIndexedCodebases_def)

lemma getIndexingCodebases_eval:
  "getIndexingCodebases [] = []"
  "getIndexingCodebases ((p, r) # s) =
     (if record_status r = indexing then p # getIndexingCodebases s else getIndexingCodebases s)"
  by (simp_all add: getIndexingCodebases_def)

lemmas sync_eval = syncIndexedCodebasesFromCloud_def checkCollection_def comp_defs manager_defs
  getIndexedCodebases_eval getIndexingCodebases_eval getCodebaseStatus_def js_Set_def

theorem capacity_exceeded_starts_nothing_witness:
  "splitterType_of repo_args = ''ast''
   \<and> ensureAbsolutePath repo_at_limit (arg_path repo_args) = Inr ''/repo''
   \<and> existsSync repo_at_limit ''/repo''
   \<and> statSync_isDirectory repo_at_limit ''/repo'' = Inr True
   \<and> ''/repo'' \<notin> set (getIndexingCodebases
        (snapshot (snd (syncIndexedCodebasesFromCloud repo_at_limit repo_fresh))))
   \<and> ''/repo'' \<notin> set (getIndexedCodebases
        (snapshot (snd (syncIndexedCodebasesFromCloud repo_at_limit repo_fresh))))
   \<and> checkCollectionLimit repo_at_limit [] = Inr False
   \<and> hasIndex repo_at_limit ''/repo'' [] = Inr True
   \<and> clearIndex repo_at_limit ''/repo'' [] = Inr ()
   \<and> fst (handleIndexCodebase repo_at_limit (Some repo_args) repo_fresh)
        = Ret \<lparr>content = CollectionLimitMessage, isError = True\<rparr>
   \<and> filter (starts_indexing ''/repo'')
        (events_since repo_fresh
           (snd (handleIndexCodebase repo_at_limit (Some repo_args) repo_fresh))) = []
   \<and> getCodebaseStatus
        (snapshot (snd (handleIndexCodebase repo_at_limit (Some repo_args) repo_fresh))) ''/repo''
        \<noteq> indexing"
proof -
  have h1: "splitterType_of repo_args = ''ast'' \<or> splitterType_of repo_args = ''langchain''"
    by (simp add: splitterType_of_def repo_args_def)
  have h2: "ensureAbsolutePath repo_at_limit (arg_path repo_args) = Inr ''/repo''"
    and h3: "existsSync repo_at_limit ''/repo''"
    and h4: "statSync_isDirectory repo_at_limit ''/repo'' = Inr True"
    and h7: "\<forall>t. checkCollectionLimit repo_at_limit t = Inr False"
    and h8: "\<forall>t. hasIndex repo_at_limit ''/repo'' t = Inr ((\<lambda>t. True) t)"
    and h9: "\<forall>t. clearIndex repo_at_limit ''/repo'' t = Inr ()"
    by (simp_all add: example_defs)
  have s: "snapshot (snd (syncIndexedCodebasesFromCloud repo_at_limit repo_fresh)) = []"
    by (simp add: sync_eval example_defs)
  have h5: "''/repo'' \<notin> set (getIndexingCodebases
        (snapshot (snd (syncIndexedCodebasesFromCloud repo_at_limit repo_fresh))))"
    and h6: "forceReindex_of repo_args \<or> ''/repo'' \<notin> set (getIndexedCodebases
        (snapshot (snd (syncIndexedCodebasesFromCloud repo_at_limit repo_fresh))))"
    unfolding s by (simp_all add: getIndexingCodebases_def getIndexedCodebases_def)
  show ?thesis
    using capacity_exceeded_starts_nothing [OF h1 h2 h3 h4 h5 h6 h7, of "\<lambda>t. True"]
      h2 h3 h4 h5 h6 h7 h8 h9
    by (simp add: splitterType_of_def forceReindex_of_def repo_args_def)
qed

theorem already_indexing_rejected_witness:
  "distinct (map fst (snapshot repo_indexing))
   \<and> getCodebaseStatus (snapshot repo_indexing) ''/repo'' = indexing
   \<and> ensureAbsolutePath repo_env (arg_path repo_args) = Inr ''/repo''
   \<and> splitterType_of repo_args = ''ast''
   \<and> existsSync repo_env ''/repo''
   \<and> statSync_isDirectory repo_env ''/repo'' = Inr True
   \<and> fst (handleIndexCodebase repo_env (Some repo_args) repo_indexing)
        = Ret \<lparr>content = AlreadyBeingIndexed ''/repo'', isError = True\<rparr>
   \<and> filter (starts_indexing ''/repo'')
        (events_since repo_indexing
           (snd (handleIndexCodebase repo_env (Some repo_args) repo_indexing))) = []"
proof -
  have h1: "distinct (map fst (snapshot repo_indexing))"
    and h2: "getCodebaseStatus (snapshot repo_indexing) ''/repo'' = indexing"
    and h3: "ensureAbsolutePath repo_env (arg_path repo_args) = Inr ''/repo''"
    and h4: "splitterType_of repo_args = ''ast''"
    and h5: "existsSync repo_env ''/repo''"
    and h6: "statSync_isDirectory repo_env ''/repo'' = Inr True"
    by (simp_all add: example_defs getCodebaseStatus_def splitterType_of_def)
  show ?thesis
    using already_indexing_rejected [OF h1 h2 h3] h1 h2 h3 h4 h5 h6 by blast
qed

lemma forced_run:
  assumes "splitterType_of a = ''ast'' \<or> splitterType_of a = ''langchain''"
    and "ensureAbsolutePath en (arg_path a) = Inr P"
    and "existsSync en P"
    and "statSync_isDirectory en P = Inr True"
    and "P \<notin> set (getIndexingCodebases (snapshot w1))"
    and "forceReindex_of a"
    and "\<forall>t. hasIndex en P t = Inr True"
    and "w3 = after_removal P (w1\<lparr>trace := trace w1 @ [HasIndex P]\<rparr>)"
    and "w4 = w3\<lparr>trace := trace w3 @ [HasIndex P, ClearIndex P]\<rparr>"
  shows "indexAfterSync en a w1 =
     (case clearIndex en P (trace w3 @ [HasIndex P]) of
        Inl x \<Rightarrow> (Throw x, w4)
      | Inr u \<Rightarrow> validateAndStart en (arg_path a) P True (splitterType_of a)
                  (or_empty (arg_customExtensions a)) (or_empty (arg_ignorePatterns a)) w4)"
  unfolding assms(8,9)
  by (simp add: indexAfterSync_valid [OF assms(1-4)] startIndexing_forced assms(5-7))

lemma forced_events:
  assumes "splitterType_of a = ''ast'' \<or> splitterType_of a = ''langchain''"
    and "ensureAbsolutePath en (arg_path a) = Inr P"
    and "existsSync en P"
    and "statSync_isDirectory en P = Inr True"
    and "P \<notin> set (getIndexingCodebases (snapshot w1))"
    and "forceReindex_of a"
    and "\<forall>t. hasIndex en P t = Inr True"
  obtains pre rest where
    "events_since w1 (snd (indexAfterSync en a w1)) = HasIndex P # pre @ [HasIndex P, ClearIndex P] @ rest"
    "pre = [] \<or> pre = [RemoveIndexedCodebase P]"
    "isl (clearIndex en P (trace w1 @ HasIndex P # pre @ [HasIndex P])) \<Longrightarrow> rest = []"
proof -
  define w3 where "w3 = after_removal P (w1\<lparr>trace := trace w1 @ [HasIndex P]\<rparr>)"
  define w4 where "w4 = w3\<lparr>trace := trace w3 @ [HasIndex P, ClearIndex P]\<rparr>"
  define pre where "pre = (if P \<in> set (getIndexedCodebases (snapshot w1))
                           then [RemoveIndexedCodebase P] else [])"
  have t3: "trace w3 = trace w1 @ HasIndex P # pre"
    by (simp add: w3_def pre_def after_removal_def)
  note run = forced_run [OF assms w3_def w4_def]
  show ?thesis
  proof (cases "clearIndex en P (trace w3 @ [HasIndex P])")
    case (Inl x)
    have "events_since w1 (snd (indexAfterSync en a w1))
            = HasIndex P # pre @ [HasIndex P, ClearIndex P] @ []"
      using Inl by (simp add: run w4_def t3 events_since_def)
    then show ?thesis
      using that [of pre "[]"] by (simp add: pre_def)
  next
    case (Inr u)
    obtain rest where rest:
      "trace (snd (validateAndStart en (arg_path a) P True (splitterType_of a)
                  (or_empty (arg_customExtensions a)) (or_empty (arg_ignorePatterns a)) w4))
         = trace w4 @ rest"
      using grown [OF grows_validateAndStart] by blast
    have "events_since w1 (snd (indexAfterSync en a w1))
            = HasIndex P # pre @ [HasIndex P, ClearIndex P] @ rest"
      using Inr rest by (simp add: run w4_def t3 events_since_def)
    moreover have "\<not> isl (clearIndex en P (trace w1 @ HasIndex P # pre @ [HasIndex P]))"
      using Inr by (simp add: t3)
    ultimately show ?thesis
      using that [of pre rest] by (simp add: pre_def)
  qed
qed

subsection \<open>A forced request\<close>

text \<open>
  C3. A forced request for a path \<open>P\<close> whose record is indexed (one record per path) and
  which has a remote index (\<open>hasIndex\<close> answers true): \<open>clearIndex(P)\<close> is called; no
  event before that call sets the record of \<open>P\<close> to indexing or launches its task;
  between the reconciliation and that call nothing is persisted; and if the call throws,
  nothing of the request ever sets the record to indexing. So the record is set to
  indexing and persisted only after \<open>clearIndex(P)\<close> has returned.
\<close>

theorem forced_reindex_clears_first:
  assumes "distinct (map fst (snapshot w))"
    and "getCodebaseStatus (snapshot w) P = indexed"
    and "forceReindex_of a"
    and "splitterType_of a = ''ast'' \<or> splitterType_of a = ''langchain''"
    and "ensureAbsolutePath en (arg_path a) = Inr P"
    and "existsSync en P"
    and "statSync_isDirectory en P = Inr True"
    and "\<forall>t. hasIndex en P t = Inr True"
  shows "ClearIndex P \<in> set (events_since w (snd (handleIndexCodebase en (Some a) w)))
     \<and> filter (starts_indexing P)
         (events_before (ClearIndex P)
            (events_since w (snd (handleIndexCodebase en (Some a) w)))) = []
     \<and> SaveCodebaseSnapshot \<notin> set
         (events_before (ClearIndex P)
            (events_since (snd (syncIndexedCodebasesFromCloud en w))
               (snd (handleIndexCodebase en (Some a) w))))
     \<and> (isl (clearIndex en P
              (trace (snd (syncIndexedCodebasesFromCloud en w))
               @ events_before (ClearIndex P)
                   (events_since (snd (syncIndexedCodebasesFromCloud en w))
                      (snd (handleIndexCodebase en (Some a) w))))) \<longrightarrow>
          filter (starts_indexing P)
            (events_since w (snd (handleIndexCodebase en (Some a) w))) = [])"
proof -
  define w1 where "w1 = snd (syncIndexedCodebasesFromCloud en w)"
  define es0 where "es0 = events_since w w1"
  have i: "P \<notin> set (getIndexingCodebases (snapshot w1))"
    unfolding w1_def by (rule sync_indexed_after(1) [OF assms(1,2)])
  have r0: "list_all reconcile_event es0"
    unfolding es0_def w1_def by (rule sync_events_reconcile)
  note s0 = reconcile_not_start [OF r0, of P]
  obtain pre rest where es:
    "events_since w1 (snd (indexAfterSync en a w1)) = HasIndex P # pre @ [HasIndex P, ClearIndex P] @ rest"
    "pre = [] \<or> pre = [RemoveIndexedCodebase P]"
    "isl (clearIndex en P (trace w1 @ HasIndex P # pre @ [HasIndex P])) \<Longrightarrow> rest = []"
    using forced_events [OF assms(4-7) i assms(3,8)] by blast
  have all: "events_since w (snd (handleIndexCodebase en (Some a) w))
               = es0 @ HasIndex P # pre @ [HasIndex P, ClearIndex P] @ rest"
    unfolding handle_world whole_call_events es0_def w1_def using es(1) [unfolded w1_def]
    by simp
  have b1: "events_before (ClearIndex P) (HasIndex P # pre @ [HasIndex P, ClearIndex P] @ rest)
              = HasIndex P # pre @ [HasIndex P]"
    using es(2) by (auto simp: events_before_def)
  have b0: "events_before (ClearIndex P) (es0 @ HasIndex P # pre @ [HasIndex P, ClearIndex P] @ rest)
              = es0 @ HasIndex P # pre @ [HasIndex P]"
    using before_reconcile_events [OF r0, of "ClearIndex P"] b1 by simp
  have 1: "ClearIndex P \<in> set (events_since w (snd (handleIndexCodebase en (Some a) w)))"
    unfolding all by simp
  have 2: "filter (starts_indexing P)
         (events_before (ClearIndex P)
            (events_since w (snd (handleIndexCodebase en (Some a) w)))) = []"
    unfolding all b0 using es(2) s0 by auto
  have 3: "SaveCodebaseSnapshot \<notin> set
         (events_before (ClearIndex P) (events_since w1 (snd (handleIndexCodebase en (Some a) w))))"
    unfolding handle_world w1_def [symmetric] es(1) b1 using es(2) by auto
  have 4: "filter (starts_indexing P)
            (events_since w (snd (handleIndexCodebase en (Some a) w))) = []"
    if "isl (clearIndex en P (trace w1 @ events_before (ClearIndex P)
                   (events_since w1 (snd (handleIndexCodebase en (Some a) w)))))"
  proof -
    have "rest = []"
      using that unfolding handle_world w1_def [symmetric] es(1) b1 by (rule es(3))
    then show ?thesis
      unfolding all using es(2) s0 by auto
  qed
  show ?thesis
    using 1 2 3 4 unfolding w1_def by blast
qed


lemmas handler_eval = handleIndexCodebase_def indexAfterSync_def startIndexing_def
  validateAndStart_def forceClear_def preflight_def registerCustom_def commitIndexing_def
  Let_def splitterType_of_def forceReindex_of_def or_empty_def events_since_def
  events_before_def

theorem forced_reindex_clears_first_witness:
  "distinct (map fst (snapshot repo_indexed))
   \<and> getCodebaseStatus (snapshot repo_indexed) ''/repo'' = indexed
   \<and> forceReindex_of repo_args_forced
   \<and> splitterType_of repo_args_forced = ''ast''
   \<and> ensureAbsolutePath repo_env (arg_path repo_args_forced) = Inr ''/repo''
   \<and> existsSync repo_env ''/repo''
   \<and> statSync_isDirectory repo_env ''/repo'' = Inr True
   \<and> hasIndex repo_env ''/repo'' [] = Inr True
   \<and> ClearIndex ''/repo'' \<in> set
        (events_since repo_indexed
           (snd (handleIndexCodebase repo_env (Some repo_args_forced) repo_indexed)))
   \<and> events_since repo_indexed
        (snd (handleIndexCodebase repo_env (Some repo_args_forced) repo_indexed))
      = [ListCollections, Query ''code_chunks_repo'', HasIndex ''/repo'',
         RemoveIndexedCodebase ''/repo'', HasIndex ''/repo'', ClearIndex ''/repo'',
         CheckCollectionLimit, SetCodebaseIndexing ''/repo'' 0, SaveCodebaseSnapshot,
         TrackCodebasePath ''/repo'', StartBackgroundIndexing ''/repo'' True ''ast'']
   \<and> isl (clearIndex repo_clear_fails ''/repo''
          [ListCollections, Query ''code_chunks_repo'', HasIndex ''/repo'',
           RemoveIndexedCodebase ''/repo'', HasIndex ''/repo''])
   \<and> filter (starts_indexing ''/repo'')
        (events_since repo_indexed
           (snd (handleIndexCodebase repo_clear_fails (Some repo_args_forced) repo_indexed))) = []"
proof -
  have h1: "distinct (map fst (snapshot repo_indexed))"
    and h2: "getCodebaseStatus (snapshot repo_indexed) ''/repo'' = indexed"
    and h3: "forceReindex_of repo_args_forced"
    and h4: "splitterType_of repo_args_forced = ''ast''
             \<or> splitterType_of repo_args_forced = ''langchain''"
    by (simp_all add: example_defs getCodebaseStatus_def splitterType_of_def forceReindex_of_def)
  have g5: "ensureAbsolutePath repo_env (arg_path repo_args_forced) = Inr ''/repo''"
    and g6: "existsSync repo_env ''/repo''"
    and g7: "statSync_isDirectory repo_env ''/repo'' = Inr True"
    and g8: "\<forall>t. hasIndex repo_env ''/repo'' t = Inr True"
    by (simp_all add: example_defs)
  have k5: "ensureAbsolutePath repo_clear_fails (arg_path repo_args_forced) = Inr ''/repo''"
    and k6: "existsSync repo_clear_fails ''/repo''"
    and k7: "statSync_isDirectory repo_clear_fails ''/repo'' = Inr True"
    and k8: "\<forall>t. hasIndex repo_clear_fails ''/repo'' t = Inr True"
    by (simp_all add: example_defs)
  have run: "events_since repo_indexed
        (snd (handleIndexCodebase repo_env (Some repo_args_forced) repo_indexed))
      = [ListCollections, Query ''code_chunks_repo'', HasIndex ''/repo'',
         RemoveIndexedCodebase ''/repo'', HasIndex ''/repo'', ClearIndex ''/repo'',
         CheckCollectionLimit, SetCodebaseIndexing ''/repo'' 0, SaveCodebaseSnapshot,
         TrackCodebasePath ''/repo'', StartBackgroundIndexing ''/repo'' True ''ast'']"
    by (simp add: handler_eval sync_eval example_defs)
  have fails: "isl (clearIndex repo_clear_fails ''/repo'' t)" for t
    by (simp add: example_defs)
  have A: "ClearIndex ''/repo'' \<in> set
        (events_since repo_indexed
           (snd (handleIndexCodebase repo_env (Some repo_args_forced) repo_indexed)))"
    using forced_reindex_clears_first [OF h1 h2 h3 h4 g5 g6 g7 g8] by blast
  have B: "filter (starts_indexing ''/repo'')
        (events_since repo_indexed
           (snd (handleIndexCodebase repo_clear_fails (Some repo_args_forced) repo_indexed))) = []"
    using forced_reindex_clears_first [OF h1 h2 h3 h4 k5 k6 k7 k8] fails by blast
  show ?thesis
    using A B h1 h2 h3 g5 g6 g7 g8 run fails
    by (simp add: splitterType_of_def repo_args_forced_def repo_args_def)
qed


subsection \<open>A forced request at capacity\<close>

text \<open>
  C9. A forced request for a path \<open>P\<close> whose record is indexed and which has a remote
  index, while the collection limit check answers false: the response is the capacity
  message, but \<open>clearIndex(P)\<close> was called before the check and the record of \<open>P\<close> is
  gone from the snapshot, so that \<open>P\<close> is left \<open>not_found\<close> instead of indexed.
\<close>

theorem forced_reindex_at_capacity_loses_index:
  assumes "distinct (map fst (snapshot w))"
    and "getCodebaseStatus (snapshot w) P = indexed"
    and "forceReindex_of a"
    and "splitterType_of a = ''ast'' \<or> splitterType_of a = ''langchain''"
    and "ensureAbsolutePath en (arg_path a) = Inr P"
    and "existsSync en P"
    and "statSync_isDirectory en P = Inr True"
    and "\<forall>t. hasIndex en P t = Inr True"
    and "\<forall>t. clearIndex en P t = Inr ()"
    and "\<forall>t. checkCollectionLimit en t = Inr False"
  shows "fst (handleIndexCodebase en (Some a) w)
           = Ret \<lparr>content = CollectionLimitMessage, isError = True\<rparr>
     \<and> getCodebaseStatus (snapshot (snd (handleIndexCodebase en (Some a) w))) P = not_found
     \<and> ClearIndex P \<in> set
         (events_before CheckCollectionLimit
            (events_since w (snd (handleIndexCodebase en (Some a) w))))
     \<and> CheckCollectionLimit \<in> set (events_since w (snd (handleIndexCodebase en (Some a) w)))"
proof -
  define w1 where "w1 = snd (syncIndexedCodebasesFromCloud en w)"
  define w3 where "w3 = after_removal P (w1\<lparr>trace := trace w1 @ [HasIndex P]\<rparr>)"
  define w4 where "w4 = w3\<lparr>trace := trace w3 @ [HasIndex P, ClearIndex P]\<rparr>"
  define es0 where "es0 = events_since w w1"
  have i: "P \<notin> set (getIndexingCodebases (snapshot w1))"
    unfolding w1_def by (rule sync_indexed_after(1) [OF assms(1,2)])
  have j: "P \<in> set (getIndexedCodebases (snapshot w1))
           \<or> getCodebaseStatus (snapshot w1) P = not_found"
    unfolding w1_def by (rule sync_indexed_after(2) [OF assms(1,2)])
  have r0: "list_all reconcile_event es0"
    unfolding es0_def w1_def by (rule sync_events_reconcile)
  have run: "indexAfterSync en a w1 =
      (Ret \<lparr>content = CollectionLimitMessage, isError = True\<rparr>,
       w4\<lparr>trace := trace w4 @ [CheckCollectionLimit]\<rparr>)"
    using assms(9,10)
    by (simp add: forced_run [OF assms(4-7) i assms(3,8) w3_def w4_def] validateAndStart_limit)
  have st: "getCodebaseStatus (snapshot w4) P = not_found"
    using j by (auto simp: w4_def w3_def after_removal_def status_delete)
  define pre where "pre = (if P \<in> set (getIndexedCodebases (snapshot w1))
                           then [RemoveIndexedCodebase P] else [])"
  have pre: "trace w4 = trace w1 @ HasIndex P # pre @ [HasIndex P, ClearIndex P]"
      "pre = [] \<or> pre = [RemoveIndexedCodebase P]"
    by (simp_all add: w4_def w3_def after_removal_def pre_def)
  have ev: "events_since w (snd (indexAfterSync en a w1))
              = es0 @ HasIndex P # pre @ [HasIndex P, ClearIndex P, CheckCollectionLimit]"
    unfolding w1_def whole_call_events es0_def
    using pre(1) run by (simp add: w1_def events_since_def)
  have bf: "events_before CheckCollectionLimit
              (es0 @ HasIndex P # pre @ [HasIndex P, ClearIndex P, CheckCollectionLimit])
            = es0 @ HasIndex P # pre @ [HasIndex P, ClearIndex P]"
    using before_reconcile_events [OF r0, of CheckCollectionLimit] pre(2)
    by (auto simp: events_before_def)
  show ?thesis
    using run st ev bf
    by (simp add: handle_result handle_world w1_def [symmetric])
qed

theorem forced_reindex_at_capacity_loses_index_witness:
  "distinct (map fst (snapshot repo_indexed))
   \<and> getCodebaseStatus (snapshot repo_indexed) ''/repo'' = indexed
   \<and> forceReindex_of repo_args_forced
   \<and> splitterType_of repo_args_forced = ''ast''
   \<and> ensureAbsolutePath repo_at_limit (arg_path repo_args_forced) = Inr ''/repo''
   \<and> existsSync repo_at_limit ''/repo''
   \<and> statSync_isDirectory repo_at_limit ''/repo'' = Inr True
   \<and> hasIndex repo_at_limit ''/repo'' [] = Inr True
   \<and> clearIndex repo_at_limit ''/repo'' [] = Inr ()
   \<and> checkCollectionLimit repo_at_limit [] = Inr False
   \<and> fst (handleIndexCodebase repo_at_limit (Some repo_args_forced) repo_indexed)
        = Ret \<lparr>content = CollectionLimitMessage, isError = True\<rparr>
   \<and> getCodebaseStatus
        (snapshot (snd (handleIndexCodebase repo_at_limit (Some repo_args_forced) repo_indexed)))
        ''/repo'' = not_found
   \<and> ClearIndex ''/repo'' \<in> set
        (events_before CheckCollectionLimit
           (events_since repo_indexed
              (snd (handleIndexCodebase repo_at_limit (Some repo_args_forced) repo_indexed))))"
proof -
  have h1: "distinct (map fst (snapshot repo_indexed))"
    and h2: "getCodebaseStatus (snapshot repo_indexed) ''/repo'' = indexed"
    and h3: "forceReindex_of repo_args_forced"
    and h4: "splitterType_of repo_args_forced = ''ast''
             \<or> splitterType_of repo_args_forced = ''langchain''"
    and h5: "ensureAbsolutePath repo_at_limit (arg_path repo_args_forced) = Inr ''/repo''"
    and h6: "existsSync repo_at_limit ''/repo''"
    and h7: "statSync_isDirectory repo_at_limit ''/repo'' = Inr True"
    and h8: "\<forall>t. hasIndex repo_at_limit ''/repo'' t = Inr True"
    and h9: "\<forall>t. clearIndex repo_at_limit ''/repo'' t = Inr ()"
    and h10: "\<forall>t. checkCollectionLimit repo_at_limit t = Inr False"
    by (simp_all add: example_defs getCodebaseStatus_def splitterType_of_def forceReindex_of_def)
  show ?thesis
    using forced_reindex_at_capacity_loses_index [OF h1 h2 h3 h4 h5 h6 h7 h8 h9 h10]
      h1 h2 h3 h5 h6 h7 h8 h9 h10
    by (simp add: splitterType_of_def repo_args_forced_def repo_args_def)
qed

subsection \<open>The detached task\<close>




lemma onProgress_stats: "indexingStats (snd (onProgress p cbs t w)) = indexingStats w"
  by (induction p cbs t arbitrary: w rule: onProgress.induct)
     (simp_all add: comp_defs manager_defs)


subsection \<open>Running a computation step by step\<close>











lemma after_warning_store [simp]:
  "snapshot (after_warning s w) = snapshot w"
  "persisted (after_warning s w) = persisted w"
  "indexingStats (after_warning s w) = indexingStats w"
  by (simp_all add: after_warning_def)






subsection \<open>A failing task\<close>




subsection \<open>A task that reaches the chunk limit\<close>








subsection \<open>What the handler answers\<close>













subsection \<open>The splitter\<close>



subsection \<open>An absent argument object\<close>


end
